theory Spec2Isabelle
  imports Main
begin

section \<open>Go values\<close>

text \<open>
  The appender's counters (\<open>maxsize\<close>, \<open>cycle\<close>, \<open>clock\<close>) are Go \<open>int\<close>s and a
  \<open>time.Duration\<close> is an \<open>int64\<close> of nanoseconds. They are modelled as HOL integers; where
  the source multiplies, the 64-bit two's complement wrap-around is written out with
  \<open>int64\<close>. Go's integer division truncates towards zero (\<open>tdiv\<close>).
  A byte slice is a \<open>string\<close> (a list of 8-bit characters); the nil slice is the empty list.
\<close>

type_synonym bytes = string

definition int64 :: "int \<Rightarrow> int" where
  "int64 x = (x + 2 ^ 63) mod 2 ^ 64 - 2 ^ 63"

definition tdiv :: "int \<Rightarrow> int \<Rightarrow> int" where
  "tdiv a b = (if (a < 0) = (b < 0) then \<bar>a\<bar> div \<bar>b\<bar> else - (\<bar>a\<bar> div \<bar>b\<bar>))"

text \<open>The two error values of the package, and any other error (from the file system or
  the layout) carried as its message.\<close>

datatype error = ErrBadOption | ErrBadValue | ErrOther string

text \<open>An \<open>interface{}\<close> argument, by its dynamic type; \<open>VOther\<close> stands for every type
  the type switches of \<open>SetOption\<close> do not name.\<close>

datatype val = VInt int | VString string | VBool bool | VOther

subsection \<open>Buffered channels\<close>

text \<open>
  A buffered channel is its queue and its closed flag; the capacity is given at the send.
  A send to a closed channel panics, a send to a full one blocks. A receive takes the
  oldest element with \<open>ok = true\<close>; on an empty closed channel it yields the zero value
  with \<open>ok = false\<close>; on an empty open channel it blocks.
\<close>

record 'a chan =
  buf :: "'a list"
  closed :: bool

datatype 'a attempt = Returned 'a | Blocked | Panicked

definition send :: "nat \<Rightarrow> 'a \<Rightarrow> 'a chan \<Rightarrow> 'a chan attempt" where
  "send cap x c =
     (if closed c then Panicked
      else if length (buf c) < cap then Returned (c\<lparr>buf := buf c @ [x]\<rparr>)
      else Blocked)"

definition recv :: "'a \<Rightarrow> 'a chan \<Rightarrow> ('a \<times> bool \<times> 'a chan) attempt" where
  "recv zero c =
     (case buf c of
        x # xs \<Rightarrow> Returned (x, True, c\<lparr>buf := xs\<rparr>)
      | [] \<Rightarrow> if closed c then Returned (zero, False, c) else Blocked)"

definition close_chan :: "'a chan \<Rightarrow> 'a chan attempt" where
  "close_chan c = (if closed c then Panicked else Returned (c\<lparr>closed := True\<rparr>))"

subsection \<open>Library functions the source calls\<close>

text \<open>\<open>strings.Trim(s, cutset)\<close>: all leading and trailing bytes of the cutset removed.\<close>

definition Trim :: "string \<Rightarrow> string \<Rightarrow> string" where
  "Trim s cutset =
     rev (dropWhile (\<lambda>c. c \<in> set cutset) (rev (dropWhile (\<lambda>c. c \<in> set cutset) s)))"

text \<open>
  \<open>strconv.Atoi\<close> on a 64-bit platform, as \<open>strconv.ParseInt(s, 10, 0)\<close> computes it (the
  fast path of \<open>Atoi\<close> for short strings returns the same): an optional sign, then decimal
  digits read left to right; a byte that is no digit gives 0 and a syntax error; a value out
  of range gives the nearest bound and a range error, at the digit where it overflows.
\<close>

datatype numError = NoError | ErrSyntax | ErrRange

definition isDigit :: "char \<Rightarrow> bool" where
  "isDigit c = (48 \<le> (of_char c :: int) \<and> (of_char c :: int) \<le> 57)"

definition digitVal :: "char \<Rightarrow> int" where
  "digitVal c = of_char c - 48"

text \<open>The loop of \<open>ParseUint\<close> for base 10 and 64 bits: \<open>n\<close> is the \<open>uint64\<close> read so far.\<close>

fun parseUintLoop :: "int \<Rightarrow> string \<Rightarrow> int \<times> numError" where
  "parseUintLoop n [] = (n, NoError)"
| "parseUintLoop n (c # cs) =
     (if \<not> isDigit c then (0, ErrSyntax)
      else if n \<ge> 1844674407370955162 then (18446744073709551615, ErrRange)
      else if n * 10 + digitVal c > 18446744073709551615 then (18446744073709551615, ErrRange)
      else parseUintLoop (n * 10 + digitVal c) cs)"

definition ParseUint :: "string \<Rightarrow> int \<times> numError" where
  "ParseUint s = (if s = [] then (0, ErrSyntax) else parseUintLoop 0 s)"

definition ParseInt :: "string \<Rightarrow> int \<times> numError" where
  "ParseInt s =
     (if s = [] then (0, ErrSyntax)
      else
        let neg = (hd s = CHR ''-'');
            s1 = (if hd s = CHR ''+'' \<or> hd s = CHR ''-'' then tl s else s);
            r = ParseUint s1;
            un = fst r
        in if snd r = ErrSyntax then (0, ErrSyntax)
           else if \<not> neg \<and> un \<ge> 9223372036854775808 then (9223372036854775807, ErrRange)
           else if neg \<and> un > 9223372036854775808 then (- 9223372036854775808, ErrRange)
           else (if neg then - un else un, NoError))"

definition Atoi :: "string \<Rightarrow> int \<times> numError" where
  "Atoi s = ParseInt s"

section \<open>StrToNumSuffix\<close>

text \<open>
  The switch falls through from G to M to K, so \<open>num\<close> is multiplied once, twice or three
  times, each product wrapping as a Go \<open>int\<close>; the suffix is cut only when the string is
  longer than one byte. The error of \<open>Atoi\<close> is dropped.
\<close>

definition StrToNumSuffix :: "string \<Rightarrow> int \<Rightarrow> int" where
  "StrToNumSuffix str mult =
     (let r =
        (if length str > 1 then
           (let c = last str in
            if c = CHR ''G'' \<or> c = CHR ''g''
              then (int64 (int64 (int64 (1 * mult) * mult) * mult), butlast str)
            else if c = CHR ''M'' \<or> c = CHR ''m''
              then (int64 (int64 (1 * mult) * mult), butlast str)
            else if c = CHR ''K'' \<or> c = CHR ''k''
              then (int64 (1 * mult), butlast str)
            else (1, str))
         else (1, str))
      in int64 (fst (Atoi (snd r)) * fst r))"

section \<open>ToBool\<close>

text \<open>\<open>strconv.ParseBool\<close>: the twelve spellings it accepts, and a syntax error for every
  other string.\<close>

definition ParseBool :: "string \<Rightarrow> bool \<times> error option" where
  "ParseBool str =
     (if str \<in> set [''1'', ''t'', ''T'', ''TRUE'', ''true'', ''True''] then (True, None)
      else if str \<in> set [''0'', ''f'', ''F'', ''FALSE'', ''false'', ''False'']
        then (False, None)
      else (False, Some (ErrOther ''invalid syntax'')))"

text \<open>\<open>ToBool\<close> of \<open>cast.go\<close>: how the package reads a value as a bool.\<close>

definition ToBool :: "val \<Rightarrow> bool \<times> error option" where
  "ToBool i =
     (case i of
        VBool b \<Rightarrow> (b, None)
      | VInt n \<Rightarrow> (if n > 0 then (True, None) else (False, None))
      | VString str \<Rightarrow> ParseBool str
      | VOther \<Rightarrow> (False, Some ErrBadValue))"

section \<open>The rotating file writer\<close>

text \<open>
  The writer is used through its methods only. Every call the appender makes is recorded
  in \<open>calls\<close>, oldest first, beside the fields the calls set.
\<close>

datatype sink_call =
    CWrite bytes | CFlush | CRotate
  | CSetFileName string | CSetFlush int | CSetMaxBackup int | CSetMaxSize int
  | CSetHead string | CSetFoot string

record sink =
  fileName :: string
  flushSize :: int
  maxBackup :: int
  sinkMaxSize :: int
  headText :: string
  footText :: string
  curSize :: int
  fileBytes :: bytes
  generation :: nat
  calls :: "sink_call list"

text \<open>Modelled from the spec: \<open>RotateFileWriter\<close> and its methods are not among the source
  files. \<open>fileBytes\<close> is what the current file holds, written since the writer last started
  one. Rotation archives the current file and starts a fresh generation, which holds the head
  and has the size of the head.\<close>

definition rotateFile :: "sink \<Rightarrow> sink" where
  "rotateFile s =
     s\<lparr>curSize := int (length (headText s)), fileBytes := headText s,
       generation := Suc (generation s)\<rparr>"

text \<open>Modelled from the spec: \<open>RotateFileWriter.Rotate\<close>, the explicit rotation.\<close>

definition sink_Rotate :: "sink \<Rightarrow> sink" where
  "sink_Rotate s = (rotateFile s)\<lparr>calls := calls s @ [CRotate]\<rparr>"

text \<open>Modelled from the spec: \<open>RotateFileWriter.Size\<close>, the size accumulated since the last
  rotation.\<close>

definition sink_Size :: "sink \<Rightarrow> int" where
  "sink_Size s = curSize s"

text \<open>Modelled from the spec: \<open>RotateFileWriter.Write\<close>. With a threshold above 0 the
  writer rotates by itself when the write would exceed it; threshold 0 means unlimited.\<close>

definition sink_Write :: "bytes \<Rightarrow> sink \<Rightarrow> sink" where
  "sink_Write bb s =
     (let s1 = (if sinkMaxSize s > 0 \<and> curSize s + int (length bb) > sinkMaxSize s
                then rotateFile s else s)
      in s1\<lparr>curSize := curSize s1 + int (length bb), fileBytes := fileBytes s1 @ bb,
            calls := calls s1 @ [CWrite bb]\<rparr>)"

text \<open>Modelled from the spec: \<open>RotateFileWriter.Flush\<close>.\<close>

definition sink_Flush :: "sink \<Rightarrow> sink" where
  "sink_Flush s = s\<lparr>calls := calls s @ [CFlush]\<rparr>"

text \<open>Modelled from the spec: the setters of \<open>RotateFileWriter\<close>. The spec does not say
  what a new file name does to the open file; \<open>fileBytes\<close> does not follow it.\<close>

definition SetFileName :: "string \<Rightarrow> sink \<Rightarrow> sink" where
  "SetFileName f s = s\<lparr>fileName := f, calls := calls s @ [CSetFileName f]\<rparr>"

definition SetFlush :: "int \<Rightarrow> sink \<Rightarrow> sink" where
  "SetFlush n s = s\<lparr>flushSize := n, calls := calls s @ [CSetFlush n]\<rparr>"

definition SetMaxBackup :: "int \<Rightarrow> sink \<Rightarrow> sink" where
  "SetMaxBackup n s = s\<lparr>maxBackup := n, calls := calls s @ [CSetMaxBackup n]\<rparr>"

definition SetMaxSize :: "int \<Rightarrow> sink \<Rightarrow> sink" where
  "SetMaxSize n s = s\<lparr>sinkMaxSize := n, calls := calls s @ [CSetMaxSize n]\<rparr>"

definition SetHead :: "string \<Rightarrow> sink \<Rightarrow> sink" where
  "SetHead h s = s\<lparr>headText := h, calls := calls s @ [CSetHead h]\<rparr>"

definition SetFoot :: "string \<Rightarrow> sink \<Rightarrow> sink" where
  "SetFoot f s = s\<lparr>footText := f, calls := calls s @ [CSetFoot f]\<rparr>"

text \<open>Modelled from the spec: \<open>NewRotateFileWriter\<close>, a writer on which nothing was called.\<close>

definition NewRotateFileWriter :: "string \<Rightarrow> sink" where
  "NewRotateFileWriter f =
     \<lparr>fileName = f, flushSize = 0, maxBackup = 0, sinkMaxSize = 0, headText = [],
      footText = [], curSize = 0, fileBytes = [], generation = 0, calls = []\<rparr>"

text \<open>The payloads of the \<open>Write\<close> calls, in call order; and their bytes in that order,
  over all file generations: not what one file holds, which is \<open>fileBytes\<close>.\<close>

fun written :: "sink_call list \<Rightarrow> bytes list" where
  "written [] = []"
| "written (CWrite bb # cs) = bb # written cs"
| "written (_ # cs) = written cs"


section \<open>What the appender takes from outside\<close>

text \<open>
  \<^item> \<open>logBufferLength\<close>: the constant \<open>l4g.LogBufferLength\<close>, the capacity of both channels;
  \<^item> \<open>parseDuration\<close>: the value \<open>time.ParseDuration\<close> returns, in nanoseconds (the source
    drops its error; the library returns 0 with an error);
  \<^item> \<open>mkdirAll\<close>: the message of the error \<open>os.MkdirAll(path.Dir(filename),
    l4g.FilePermDefault)\<close> returns, \<open>None\<close> for nil;
  \<^item> \<open>layoutSetOption\<close>: \<open>Layout.SetOption\<close> of the formatting layer;
  \<^item> \<open>midnight\<close>: \<open>time.Date(y, m, d, 0, 0, 0, 0, loc)\<close> for the year, month, day and
    location of an instant.
  An instant is its count of nanoseconds since the epoch.
\<close>

record 'l externals =
  logBufferLength :: nat
  parseDuration :: "string \<Rightarrow> int"
  mkdirAll :: "string \<Rightarrow> string option"
  layoutSetOption :: "string \<Rightarrow> val \<Rightarrow> 'l \<Rightarrow> error option \<times> 'l"
  midnight :: "int \<Rightarrow> int"

text \<open>\<open>Time.Add\<close> is exact on instants; \<open>Time.Sub\<close> saturates at the bounds of a
  \<open>Duration\<close>.\<close>

definition time_Sub :: "int \<Rightarrow> int \<Rightarrow> int" where
  "time_Sub t u = max (- (2 ^ 63)) (min (2 ^ 63 - 1) (t - u))"

section \<open>FileAppender\<close>

record 'l FileAppender =
  layout :: 'l
  messages :: "bytes chan"
  out :: sink
  maxsize :: int
  cycle :: int
  clock :: int
  loopRunning :: bool
  loopReset :: "int chan"

definition NewAppender :: "'l \<Rightarrow> string \<Rightarrow> int \<Rightarrow> 'l FileAppender" where
  "NewAppender patternLayout filename maxbackup =
     \<lparr>layout = patternLayout,
      messages = \<lparr>buf = [], closed = False\<rparr>,
      out = SetMaxBackup maxbackup (NewRotateFileWriter filename),
      maxsize = 0,
      cycle = 86400,
      clock = - 1,
      loopRunning = False,
      loopReset = \<lparr>buf = [], closed = False\<rparr>\<rparr>"

subsection \<open>nextTime\<close>

text \<open>\<open>now\<close> is the reading of \<open>time.Now()\<close>; \<open>time.Duration(n) * time.Second\<close> is an
  \<open>int64\<close> product.\<close>

definition seconds :: "int \<Rightarrow> int" where
  "seconds n = int64 (n * 1000000000)"

definition nextTime :: "'l externals \<Rightarrow> int \<Rightarrow> int \<Rightarrow> int \<Rightarrow> int" where
  "nextTime ext now cycle0 clock0 =
     (let cycle1 = (if cycle0 \<le> 0 then 86400 else cycle0) in
      if clock0 < 0 then now + seconds cycle1
      else
        let nextCycle = now + seconds cycle1;
            nrt = midnight ext nextCycle
        in nrt + seconds clock0)"

subsection \<open>SetOption\<close>

text \<open>The token sent on \<open>loopReset\<close> when the loop is running.\<close>

definition postReset :: "'l externals \<Rightarrow> int \<Rightarrow> 'l FileAppender \<Rightarrow> 'l FileAppender attempt" where
  "postReset ext now fa =
     (if loopRunning fa then
        (case send (logBufferLength ext) now (loopReset fa) of
           Returned c \<Rightarrow> Returned (fa\<lparr>loopReset := c\<rparr>)
         | Blocked \<Rightarrow> Blocked
         | Panicked \<Rightarrow> Panicked)
      else Returned fa)"

definition finish :: "'l FileAppender attempt \<Rightarrow> (error option \<times> 'l FileAppender) attempt" where
  "finish a = (case a of Returned fa \<Rightarrow> Returned (None, fa) | Blocked \<Rightarrow> Blocked
               | Panicked \<Rightarrow> Panicked)"

text \<open>
  \<open>SetOption\<close> runs with the mutex held from entry to return, so it is one step of the
  model. It returns the error (\<open>None\<close> for nil) and the appender, or does not return:
  blocked on a full \<open>loopReset\<close>, or panicking on a closed one. \<open>now\<close> is the reading of
  \<open>time.Now()\<close> for the token.
\<close>

definition whitespace :: string where
  "whitespace = [CHR '' '', CHR 0x0D, CHR 0x0A]"

text \<open>What each case does once its type switch has produced the value.\<close>

definition storeMaxsize :: "int \<Rightarrow> 'l FileAppender \<Rightarrow> 'l FileAppender" where
  "storeMaxsize n fa =
     (let fa1 = fa\<lparr>maxsize := n\<rparr>
      in if cycle fa1 \<le> 0 then fa1\<lparr>out := SetMaxSize (maxsize fa1) (out fa1)\<rparr> else fa1)"

definition setThreshold :: "'l FileAppender \<Rightarrow> 'l FileAppender" where
  "setThreshold fa =
     (if cycle fa \<le> 0 then fa\<lparr>out := SetMaxSize (maxsize fa) (out fa)\<rparr>
      else fa\<lparr>out := SetMaxSize 0 (out fa)\<rparr>)"

definition storeCycle ::
  "'l externals \<Rightarrow> int \<Rightarrow> int \<Rightarrow> 'l FileAppender \<Rightarrow> (error option \<times> 'l FileAppender) attempt" where
  "storeCycle ext now n fa = finish (postReset ext now (setThreshold (fa\<lparr>cycle := n\<rparr>)))"

definition storeClock ::
  "'l externals \<Rightarrow> int \<Rightarrow> int \<Rightarrow> 'l FileAppender \<Rightarrow> (error option \<times> 'l FileAppender) attempt" where
  "storeClock ext now n fa = finish (postReset ext now (fa\<lparr>clock := n\<rparr>))"

definition storeDaily ::
  "'l externals \<Rightarrow> int \<Rightarrow> bool \<Rightarrow> 'l FileAppender \<Rightarrow> (error option \<times> 'l FileAppender) attempt" where
  "storeDaily ext now daily fa =
     (if daily then
        finish (postReset ext now
          (fa\<lparr>cycle := 86400, clock := 0, maxsize := 0, out := SetMaxSize 0 (out fa)\<rparr>))
      else Returned (None, fa))"

definition SetOption ::
  "'l externals \<Rightarrow> int \<Rightarrow> string \<Rightarrow> val \<Rightarrow> 'l FileAppender
     \<Rightarrow> (error option \<times> 'l FileAppender) attempt" where
  "SetOption ext now name v fa =
     (if name = ''filename'' then
        (case v of
           VString filename \<Rightarrow>
             if length filename \<le> 0 then Returned (Some ErrBadValue, fa)
             else (case mkdirAll ext filename of
                     Some msg \<Rightarrow> Returned (Some (ErrOther msg), fa)
                   | None \<Rightarrow> Returned (None, fa\<lparr>out := SetFileName filename (out fa)\<rparr>))
         | _ \<Rightarrow> Returned (Some ErrBadValue, fa))
      else if name = ''flush'' then
        (case v of
           VInt n \<Rightarrow> Returned (None, fa\<lparr>out := SetFlush n (out fa)\<rparr>)
         | VString s \<Rightarrow>
             Returned (None,
               fa\<lparr>out := SetFlush (StrToNumSuffix (Trim s whitespace) 1024) (out fa)\<rparr>)
         | _ \<Rightarrow> Returned (Some ErrBadValue, fa))
      else if name = ''maxbackup'' then
        (case v of
           VInt n \<Rightarrow> Returned (None, fa\<lparr>out := SetMaxBackup n (out fa)\<rparr>)
         | VString s \<Rightarrow>
             Returned (None,
               fa\<lparr>out := SetMaxBackup (StrToNumSuffix (Trim s whitespace) 1) (out fa)\<rparr>)
         | _ \<Rightarrow> Returned (Some ErrBadValue, fa))
      else if name = ''maxsize'' then
        (case v of
           VInt n \<Rightarrow> Returned (None, storeMaxsize n fa)
         | VString s \<Rightarrow>
             Returned (None, storeMaxsize (StrToNumSuffix (Trim s whitespace) 1024) fa)
         | _ \<Rightarrow> Returned (Some ErrBadValue, fa))
      else if name = ''pattern'' \<or> name = ''format'' \<or> name = ''utc'' then
        (let r = layoutSetOption ext name v (layout fa)
         in Returned (fst r, fa\<lparr>layout := snd r\<rparr>))
      else if name = ''head'' then
        (case v of
           VString header \<Rightarrow> Returned (None, fa\<lparr>out := SetHead header (out fa)\<rparr>)
         | _ \<Rightarrow> Returned (Some ErrBadValue, fa))
      else if name = ''foot'' then
        (case v of
           VString footer \<Rightarrow> Returned (None, fa\<lparr>out := SetFoot footer (out fa)\<rparr>)
         | _ \<Rightarrow> Returned (Some ErrBadValue, fa))
      else if name = ''cycle'' then
        (case v of
           VInt n \<Rightarrow> storeCycle ext now n fa
         | VString s \<Rightarrow> storeCycle ext now (tdiv (parseDuration ext s) 1000000000) fa
         | _ \<Rightarrow> Returned (Some ErrBadValue, fa))
      else if name = ''clock'' \<or> name = ''delay0'' then
        (case v of
           VInt n \<Rightarrow> storeClock ext now n fa
         | VString s \<Rightarrow> storeClock ext now (tdiv (parseDuration ext s) 1000000000) fa
         | _ \<Rightarrow> Returned (Some ErrBadValue, fa))
      else if name = ''daily'' then
        (case v of
           VString s \<Rightarrow> storeDaily ext now (Trim s whitespace \<noteq> ''false'') fa
         | VBool b \<Rightarrow> storeDaily ext now b fa
         | _ \<Rightarrow> Returned (Some ErrBadValue, fa))
      else Returned (Some ErrBadOption, fa))"

subsection \<open>Write and Close\<close>

text \<open>\<open>Write\<close> sends the formatted record \<open>bb\<close> on \<open>messages\<close>.\<close>

definition Write :: "'l externals \<Rightarrow> bytes \<Rightarrow> 'l FileAppender \<Rightarrow> 'l FileAppender attempt" where
  "Write ext bb fa =
     (case send (logBufferLength ext) bb (messages fa) of
        Returned c \<Rightarrow> Returned (fa\<lparr>messages := c\<rparr>)
      | Blocked \<Rightarrow> Blocked
      | Panicked \<Rightarrow> Panicked)"

text \<open>
  \<open>Close\<close> closes \<open>messages\<close> first and \<open>loopReset\<close> last. Between the two it polls the
  queue length at most ten times, 100 ms apart, and releases the writer; that part runs
  against the loop in real time and is not modelled.
\<close>

definition Close_messages :: "'l FileAppender \<Rightarrow> 'l FileAppender attempt" where
  "Close_messages fa =
     (case close_chan (messages fa) of
        Returned c \<Rightarrow> Returned (fa\<lparr>messages := c\<rparr>)
      | Blocked \<Rightarrow> Blocked
      | Panicked \<Rightarrow> Panicked)"

definition Close_loopReset :: "'l FileAppender \<Rightarrow> 'l FileAppender attempt" where
  "Close_loopReset fa =
     (case close_chan (loopReset fa) of
        Returned c \<Rightarrow> Returned (fa\<lparr>loopReset := c\<rparr>)
      | Blocked \<Rightarrow> Blocked
      | Panicked \<Rightarrow> Panicked)"

subsection \<open>writeLoop\<close>

text \<open>The loop's local variables: the deadline \<open>nrt\<close> and the duration \<open>rotTimer\<close> was last
  armed with.\<close>

record loopLocal =
  nrt :: int
  rotTimer :: int

definition rotateIfDue :: "'l FileAppender \<Rightarrow> 'l FileAppender" where
  "rotateIfDue fa =
     (if cycle fa > 0 \<and> sink_Size (out fa) > maxsize fa
      then fa\<lparr>out := sink_Rotate (out fa)\<rparr> else fa)"

text \<open>\<open>t1\<close> and \<open>t2\<close> are the two readings of \<open>time.Now()\<close>: inside \<open>nextTime\<close> and for the
  timer's duration.\<close>

definition arm :: "'l externals \<Rightarrow> int \<Rightarrow> int \<Rightarrow> 'l FileAppender \<Rightarrow> loopLocal" where
  "arm ext t1 t2 fa =
     (let n = nextTime ext t1 (cycle fa) (clock fa)
      in \<lparr>nrt = n, rotTimer = time_Sub n t2\<rparr>)"

text \<open>The part of \<open>writeLoop\<close> before \<open>close(ready)\<close>.\<close>

definition writeLoop_start ::
  "'l externals \<Rightarrow> int \<Rightarrow> int \<Rightarrow> 'l FileAppender \<Rightarrow> 'l FileAppender \<times> loopLocal" where
  "writeLoop_start ext t1 t2 fa = (let fa1 = rotateIfDue fa in (fa1, arm ext t1 t2 fa1))"

text \<open>\<open>for bb := range fa.messages\<close> on the closed channel: every buffered message, oldest
  first.\<close>

fun drain :: "bytes list \<Rightarrow> sink \<Rightarrow> sink" where
  "drain [] s = s"
| "drain (bb # bbs) s = drain bbs (sink_Write bb s)"

text \<open>The case the \<open>select\<close> takes, with the clock readings the case makes.\<close>

datatype select_case = RecvMessages | TimerFired int int | RecvReset int int

text \<open>
  One iteration of the \<open>for\<close> loop. The result is the appender and the locals, \<open>None\<close> for
  the locals once the loop has returned (the deferred function has then cleared
  \<open>loopRunning\<close>); \<open>Blocked\<close> when the channel of the case has nothing to receive.
  The message case holds the mutex around its writes, so it is one step against
  \<open>SetOption\<close>; the timer is taken to fire whenever the schedule says so.
\<close>

definition writeLoop_step ::
  "'l externals \<Rightarrow> select_case \<Rightarrow> 'l FileAppender \<Rightarrow> loopLocal
     \<Rightarrow> ('l FileAppender \<times> loopLocal option) attempt" where
  "writeLoop_step ext sc fa loc =
     (case sc of
        RecvMessages \<Rightarrow>
          (case recv [] (messages fa) of
             Returned (bb, ok, c) \<Rightarrow>
               let fa1 = fa\<lparr>messages := c\<rparr>;
                   fa2 = fa1\<lparr>out := sink_Write bb (out fa1)\<rparr>;
                   fa3 = (if length (buf (messages fa2)) \<le> 0
                          then fa2\<lparr>out := sink_Flush (out fa2)\<rparr> else fa2)
               in if \<not> ok then
                    let fa4 = fa3\<lparr>out := drain (buf (messages fa3)) (out fa3),
                                  messages := (messages fa3)\<lparr>buf := []\<rparr>\<rparr>
                    in Returned (fa4\<lparr>loopRunning := False\<rparr>, None)
                  else Returned (fa3, Some loc)
           | Blocked \<Rightarrow> Blocked
           | Panicked \<Rightarrow> Panicked)
      | TimerFired t1 t2 \<Rightarrow> Returned (rotateIfDue fa, Some (arm ext t1 t2 fa))
      | RecvReset t1 t2 \<Rightarrow>
          (case recv 0 (loopReset fa) of
             Returned (tok, ok, c) \<Rightarrow> Returned (fa\<lparr>loopReset := c\<rparr>, Some (arm ext t1 t2 fa))
           | Blocked \<Rightarrow> Blocked
           | Panicked \<Rightarrow> Panicked))"

subsection \<open>Init\<close>

text \<open>The appender with its background task: the locals of the live loop, and how many
  loops were ever started.\<close>

record 'l world =
  app :: "'l FileAppender"
  task :: "loopLocal option"
  spawned :: nat

text \<open>\<open>Init\<close> waits on \<open>ready\<close>, which the loop closes after arming the timer.\<close>

definition Init :: "'l externals \<Rightarrow> int \<Rightarrow> int \<Rightarrow> 'l world \<Rightarrow> 'l world" where
  "Init ext t1 t2 w =
     (if loopRunning (app w) then w
      else
        let r = writeLoop_start ext t1 t2 ((app w)\<lparr>loopRunning := True\<rparr>)
        in w\<lparr>app := fst r, task := Some (snd r), spawned := Suc (spawned w)\<rparr>)"

subsection \<open>Interleavings\<close>

text \<open>What producers, the closing caller, the loop and the configuring callers do, one
  action at a time; the states are those in which the loop is at its \<open>select\<close> and every
  call has returned. An action that blocks or panics has no successor: a \<open>SetOption\<close>
  blocked on a full \<open>loopReset\<close> keeps the mutex, the loop's message case then waits for it
  after its receive, and such runs have no state here.\<close>

datatype action =
    AWrite bytes
  | ACloseMessages
  | ACloseReset
  | ASelect select_case
  | ASetOption int string val

definition lift :: "'l world \<Rightarrow> 'l FileAppender attempt \<Rightarrow> 'l world option" where
  "lift w a = (case a of Returned fa \<Rightarrow> Some (w\<lparr>app := fa\<rparr>) | Blocked \<Rightarrow> None | Panicked \<Rightarrow> None)"

definition exec :: "'l externals \<Rightarrow> action \<Rightarrow> 'l world \<Rightarrow> 'l world option" where
  "exec ext a w =
     (case a of
        AWrite bb \<Rightarrow> lift w (Write ext bb (app w))
      | ACloseMessages \<Rightarrow> lift w (Close_messages (app w))
      | ACloseReset \<Rightarrow> lift w (Close_loopReset (app w))
      | ASelect sc \<Rightarrow>
          (case task w of
             None \<Rightarrow> None
           | Some loc \<Rightarrow>
               (case writeLoop_step ext sc (app w) loc of
                  Returned r \<Rightarrow> Some (w\<lparr>app := fst r, task := snd r\<rparr>)
                | Blocked \<Rightarrow> None
                | Panicked \<Rightarrow> None))
      | ASetOption now name v \<Rightarrow>
          (case SetOption ext now name v (app w) of
             Returned r \<Rightarrow> Some (w\<lparr>app := snd r\<rparr>)
           | Blocked \<Rightarrow> None
           | Panicked \<Rightarrow> None))"

fun run :: "'l externals \<Rightarrow> action list \<Rightarrow> 'l world \<Rightarrow> 'l world option" where
  "run ext [] w = Some w"
| "run ext (a # as) w = (case exec ext a w of None \<Rightarrow> None | Some w1 \<Rightarrow> run ext as w1)"

text \<open>The messages a schedule passes to \<open>Write\<close>, in call order.\<close>

fun produced :: "action list \<Rightarrow> bytes list" where
  "produced [] = []"
| "produced (AWrite bb # as) = bb # produced as"
| "produced (_ # as) = produced as"

subsection \<open>Concrete surroundings for evaluation\<close>

text \<open>A time zone at offset 0 without daylight saving, a file system where every directory
  can be made, a layout with no state, and a duration parser known on one string.\<close>

definition utcMidnight :: "int \<Rightarrow> int" where
  "utcMidnight t = t - t mod 86400000000000"

definition ext0 :: "unit externals" where
  "ext0 =
     \<lparr>logBufferLength = 32,
      parseDuration = (\<lambda>s. if s = ''1h'' then 3600000000000 else 0),
      mkdirAll = (\<lambda>p. None),
      layoutSetOption = (\<lambda>name v l. (None, l)),
      midnight = utcMidnight\<rparr>"

definition fa0 :: "unit FileAppender" where
  "fa0 = NewAppender () ''test.log'' 3"

definition w0 :: "unit world" where
  "w0 = Init ext0 1000 1001 \<lparr>app = fa0, task = None, spawned = 0\<rparr>"

section \<open>Notions the statements use\<close>

text \<open>The names the switch of \<open>SetOption\<close> has a case for.\<close>

definition optionNames :: "string list" where
  "optionNames = [''filename'', ''flush'', ''maxbackup'', ''maxsize'', ''pattern'', ''format'',
     ''utc'', ''head'', ''foot'', ''cycle'', ''clock'', ''delay0'', ''daily'']"

text \<open>A token can be sent without blocking or panicking: the loop is not running (nothing
  is sent), or \<open>loopReset\<close> is open and has room.\<close>

definition canPost :: "'l externals \<Rightarrow> 'l FileAppender \<Rightarrow> bool" where
  "canPost ext fa =
     (if loopRunning fa
      then \<not> closed (loopReset fa) \<and> length (buf (loopReset fa)) < logBufferLength ext
      else True)"

definition posted :: "int \<Rightarrow> 'l FileAppender \<Rightarrow> 'l FileAppender" where
  "posted now fa =
     (if loopRunning fa
      then fa\<lparr>loopReset := (loopReset fa)\<lparr>buf := buf (loopReset fa) @ [now]\<rparr>\<rparr>
      else fa)"

text \<open>What the type switch of the \<open>daily\<close> case yields: on for bool true and for a
  string that is not \<open>"false"\<close> after trimming, off for bool false and for a string that is
  \<open>"false"\<close> after trimming. This is the test of \<open>SetOption\<close>, not \<open>ToBool\<close>.\<close>

definition dailyOn :: "val \<Rightarrow> bool" where
  "dailyOn v =
     (case v of VBool b \<Rightarrow> b | VString s \<Rightarrow> Trim s whitespace \<noteq> ''false'' | _ \<Rightarrow> False)"

definition dailyOff :: "val \<Rightarrow> bool" where
  "dailyOff v =
     (case v of VBool b \<Rightarrow> \<not> b | VString s \<Rightarrow> Trim s whitespace = ''false'' | _ \<Rightarrow> False)"

text \<open>The value a type switch hands on: for \<open>cycle\<close> (and \<open>clock\<close>) an int as it is or
  a string through \<open>time.ParseDuration\<close> in whole seconds; for \<open>maxsize\<close> an int as it is or a
  trimmed string through \<open>StrToNumSuffix\<close>.\<close>

definition cycleOf :: "'l externals \<Rightarrow> val \<Rightarrow> int option" where
  "cycleOf ext v =
     (case v of VInt n \<Rightarrow> Some n
      | VString s \<Rightarrow> Some (tdiv (parseDuration ext s) 1000000000)
      | _ \<Rightarrow> None)"

definition sizeOf :: "val \<Rightarrow> int option" where
  "sizeOf v =
     (case v of VInt n \<Rightarrow> Some n
      | VString s \<Rightarrow> Some (StrToNumSuffix (Trim s whitespace) 1024)
      | _ \<Rightarrow> None)"

text \<open>The options \<open>SetOption\<close> handles itself (the rest go to the layout), the dynamic
  types each accepts (for \<open>filename\<close> a non-empty string), and the options whose
  strings go through a parser or a comparison before they are stored.\<close>

definition ownOption :: "string \<Rightarrow> bool" where
  "ownOption name =
     (name = ''filename'' \<or> name = ''flush'' \<or> name = ''maxbackup'' \<or> name = ''maxsize'' \<or>
      name = ''head'' \<or> name = ''foot'' \<or> name = ''cycle'' \<or> name = ''clock'' \<or>
      name = ''delay0'' \<or> name = ''daily'')"

definition typeAccepted :: "string \<Rightarrow> val \<Rightarrow> bool" where
  "typeAccepted name v =
     (if name = ''filename'' then (case v of VString f \<Rightarrow> 0 < length f | _ \<Rightarrow> False)
      else if name = ''head'' \<or> name = ''foot'' then (case v of VString s \<Rightarrow> True | _ \<Rightarrow> False)
      else if name = ''daily''
        then (case v of VString s \<Rightarrow> True | VBool b \<Rightarrow> True | _ \<Rightarrow> False)
      else (case v of VInt n \<Rightarrow> True | VString s \<Rightarrow> True | _ \<Rightarrow> False))"

definition stringParsed :: "string \<Rightarrow> bool" where
  "stringParsed name =
     (name = ''cycle'' \<or> name = ''clock'' \<or> name = ''delay0'' \<or> name = ''maxsize'' \<or>
      name = ''daily'')"

text \<open>The whole seconds of the duration a string parses to, as the \<open>cycle\<close> and \<open>clock\<close>
  cases compute them; and the part of a string \<open>StrToNumSuffix\<close> hands to \<open>Atoi\<close>.\<close>

definition wholeSeconds :: "'l externals \<Rightarrow> string \<Rightarrow> int" where
  "wholeSeconds ext s = tdiv (parseDuration ext s) 1000000000"

definition numberPart :: "string \<Rightarrow> string" where
  "numberPart str =
     (if length str > 1 \<and> last str \<in> set ''GgMmKk'' then butlast str else str)"

text \<open>The cycle \<open>nextTime\<close> works with: 86400 in place of a cycle that is not positive.\<close>

definition effectiveCycle :: "int \<Rightarrow> int" where
  "effectiveCycle cycle0 = (if cycle0 \<le> 0 then 86400 else cycle0)"

text \<open>The number a string of decimal digits denotes, and the suffix letters by the power of
  the multiplier they stand for.\<close>

definition decimal :: "string \<Rightarrow> int" where
  "decimal ds = foldl (\<lambda>n c. n * 10 + digitVal c) 0 ds"

definition isSuffix :: "nat \<Rightarrow> char \<Rightarrow> bool" where
  "isSuffix k c =
     (if k = 1 then c = CHR ''K'' \<or> c = CHR ''k''
      else if k = 2 then c = CHR ''M'' \<or> c = CHR ''m''
      else if k = 3 then c = CHR ''G'' \<or> c = CHR ''g''
      else False)"

text \<open>The loop's rotation test, and whether a receive from \<open>loopReset\<close> can proceed.\<close>

definition rotationDue :: "'l FileAppender \<Rightarrow> bool" where
  "rotationDue fa = (cycle fa > 0 \<and> sink_Size (out fa) > maxsize fa)"

definition resetReady :: "'l FileAppender \<Rightarrow> bool" where
  "resetReady fa = (buf (loopReset fa) \<noteq> [] \<or> closed (loopReset fa))"

text \<open>What the loop has passed to \<open>Write\<close> so far and what waits in the queue; and the
  relation between both and the messages \<open>W\<close> sent so far: while the loop lives, written
  then queued is \<open>W\<close>; once it has returned, written is \<open>W\<close> and one empty payload, and
  the queue is empty and closed.\<close>

definition wr :: "'l FileAppender \<Rightarrow> bytes list" where
  "wr fa = written (calls (out fa))"

definition queued :: "'l FileAppender \<Rightarrow> bytes list" where
  "queued fa = buf (messages fa)"

definition traceOk :: "bytes list \<Rightarrow> 'l world \<Rightarrow> bool" where
  "traceOk W w =
     (case task w of
        Some loc \<Rightarrow> wr (app w) @ queued (app w) = W
      | None \<Rightarrow> wr (app w) = W @ [[]] \<and> queued (app w) = [] \<and> closed (messages (app w)))"

text \<open>The options handed to the layout.\<close>

definition layoutOption :: "string \<Rightarrow> bool" where
  "layoutOption name = (name = ''pattern'' \<or> name = ''format'' \<or> name = ''utc'')"


definition wMid :: "unit world" where
  "wMid =
     \<lparr>app =
        \<lparr>layout = (), messages = \<lparr>buf = [''b'', ''c''], closed = True\<rparr>,
         out =
           \<lparr>fileName = ''test.log'', flushSize = 0, maxBackup = 3, sinkMaxSize = 0,
            headText = [], footText = [], curSize = 1, fileBytes = ''a'', generation = 0,
            calls = [CSetMaxBackup 3, CWrite ''a'', CSetMaxSize 0]\<rparr>,
         maxsize = 0, cycle = 3600, clock = - 1, loopRunning = True,
         loopReset = \<lparr>buf = [5], closed = False\<rparr>\<rparr>,
      task = Some \<lparr>nrt = 86400000001000, rotTimer = 86399999999999\<rparr>,
      spawned = 1\<rparr>"


definition wShut :: "unit world" where
  "wShut =
     \<lparr>app =
        \<lparr>layout = (), messages = \<lparr>buf = [], closed = True\<rparr>,
         out =
           \<lparr>fileName = ''test.log'', flushSize = 0, maxBackup = 3, sinkMaxSize = 0,
            headText = [], footText = [], curSize = 0, fileBytes = [], generation = 0,
            calls = [CSetMaxBackup 3, CWrite [], CFlush]\<rparr>,
         maxsize = 0, cycle = 86400, clock = - 1, loopRunning = False,
         loopReset = \<lparr>buf = [], closed = False\<rparr>\<rparr>,
      task = None, spawned = 1\<rparr>"



section \<open>Properties of SetOption\<close>

lemma postReset_canPost:
  "canPost ext fa \<Longrightarrow> postReset ext now fa = Returned (posted now fa)"
  by (simp add: canPost_def postReset_def posted_def send_def split: if_splits)

lemma posted_fields [simp]:
  "cycle (posted now fa) = cycle fa" "clock (posted now fa) = clock fa"
  "maxsize (posted now fa) = maxsize fa" "out (posted now fa) = out fa"
  "layout (posted now fa) = layout fa" "messages (posted now fa) = messages fa"
  "loopRunning (posted now fa) = loopRunning fa"
  "closed (loopReset (posted now fa)) = closed (loopReset fa)"
  "buf (loopReset (posted now fa)) = buf (loopReset fa) @ (if loopRunning fa then [now] else [])"
  by (simp_all add: posted_def)

lemma SetOption_daily_eq:
  "SetOption ext now ''daily'' v fa =
     (case v of
        VString s \<Rightarrow> storeDaily ext now (Trim s whitespace \<noteq> ''false'') fa
      | VBool b \<Rightarrow> storeDaily ext now b fa
      | _ \<Rightarrow> Returned (Some ErrBadValue, fa))"
  by (simp add: SetOption_def)

lemma SetOption_cycle_eq:
  "SetOption ext now ''cycle'' v fa =
     (case v of
        VInt n \<Rightarrow> storeCycle ext now n fa
      | VString s \<Rightarrow> storeCycle ext now (tdiv (parseDuration ext s) 1000000000) fa
      | _ \<Rightarrow> Returned (Some ErrBadValue, fa))"
  by (simp add: SetOption_def)

lemma SetOption_clock_eq:
  "name = ''clock'' \<or> name = ''delay0'' \<Longrightarrow>
   SetOption ext now name v fa =
     (case v of
        VInt n \<Rightarrow> storeClock ext now n fa
      | VString s \<Rightarrow> storeClock ext now (tdiv (parseDuration ext s) 1000000000) fa
      | _ \<Rightarrow> Returned (Some ErrBadValue, fa))"
  by (erule disjE) (simp_all add: SetOption_def)

lemma SetOption_maxsize_eq:
  "SetOption ext now ''maxsize'' v fa =
     (case v of
        VInt n \<Rightarrow> Returned (None, storeMaxsize n fa)
      | VString s \<Rightarrow> Returned (None, storeMaxsize (StrToNumSuffix (Trim s whitespace) 1024) fa)
      | _ \<Rightarrow> Returned (Some ErrBadValue, fa))"
  by (simp add: SetOption_def)

lemma storeDaily_True:
  "canPost ext fa \<Longrightarrow>
   storeDaily ext now True fa =
     Returned (None, posted now (fa\<lparr>cycle := 86400, clock := 0, maxsize := 0,
                                   out := SetMaxSize 0 (out fa)\<rparr>))"
  by (simp add: storeDaily_def canPost_def postReset_def posted_def send_def finish_def)

lemma canPost_fa0: "canPost ext0 fa0"
  by (simp add: canPost_def fa0_def NewAppender_def)

lemma canPost_running: "canPost ext0 (fa0\<lparr>loopRunning := True\<rparr>)"
  by (simp add: canPost_def fa0_def NewAppender_def ext0_def)

lemma Trim_true: "Trim ''true'' whitespace = ''true''"
  by (simp add: Trim_def whitespace_def)

lemma Trim_false: "Trim '' false'' whitespace = ''false''"
  by (simp add: Trim_def whitespace_def)

text \<open>
  C7. For every name the switch has no case for, and every value, \<open>SetOption\<close> returns
  \<open>ErrBadOption\<close> and the appender, its writer included, is what it was.
\<close>

theorem SetOption_unknown:
  assumes "name \<notin> set optionNames"
  shows "SetOption ext now name v fa = Returned (Some ErrBadOption, fa)"
  using assms by (simp add: optionNames_def SetOption_def)

theorem SetOption_unknown_witness:
  "SetOption ext0 0 ''bogus'' (VInt 1) fa0 = Returned (Some ErrBadOption, fa0)"
  by (rule SetOption_unknown) (simp add: optionNames_def)

lemma postReset_closed:
  "loopRunning fa \<Longrightarrow> closed (loopReset fa) \<Longrightarrow> postReset ext now fa = Panicked"
  by (simp add: postReset_def send_def)

lemma postReset_full:
  "loopRunning fa \<Longrightarrow> \<not> closed (loopReset fa) \<Longrightarrow>
   logBufferLength ext \<le> length (buf (loopReset fa)) \<Longrightarrow> postReset ext now fa = Blocked"
  by (simp add: postReset_def send_def)

lemma finish_stuck: "finish Panicked = Panicked" "finish Blocked = Blocked"
  by (simp_all add: finish_def)

text \<open>
  C5, as amended. \<open>SetOption("daily", v)\<close> with bool true, or with a string that is not
  \<open>"false"\<close> after trimming (the empty string, \<open>"0"\<close> and \<open>"False"\<close> among them), stores
  \<open>cycle = 86400\<close>, \<open>clock = 0\<close>, \<open>maxsize = 0\<close>, sets the writer's threshold to 0 by one
  \<open>SetMaxSize(0)\<close> and appends one token to \<open>loopReset\<close> exactly when the loop is running;
  it returns nil when the token can be sent, panics on a closed \<open>loopReset\<close> and blocks on
  a full one. With bool false or a string that is \<open>"false"\<close> after trimming it returns nil
  and changes nothing; with a value of any other type it returns the bad-value error and
  changes nothing.
\<close>

theorem SetOption_daily:
  "(dailyOn v \<and> canPost ext fa \<longrightarrow>
      (\<exists>fa'. SetOption ext now ''daily'' v fa = Returned (None, fa') \<and>
         cycle fa' = 86400 \<and> clock fa' = 0 \<and> maxsize fa' = 0 \<and>
         sinkMaxSize (out fa') = 0 \<and>
         out fa' = SetMaxSize 0 (out fa) \<and>
         buf (loopReset fa') = buf (loopReset fa) @ (if loopRunning fa then [now] else []) \<and>
         closed (loopReset fa') = closed (loopReset fa) \<and>
         loopRunning fa' = loopRunning fa \<and> messages fa' = messages fa \<and>
         layout fa' = layout fa)) \<and>
   (dailyOn v \<and> loopRunning fa \<and> closed (loopReset fa) \<longrightarrow>
      SetOption ext now ''daily'' v fa = Panicked) \<and>
   (dailyOn v \<and> loopRunning fa \<and> \<not> closed (loopReset fa) \<and>
    logBufferLength ext \<le> length (buf (loopReset fa)) \<longrightarrow>
      SetOption ext now ''daily'' v fa = Blocked) \<and>
   (dailyOff v \<longrightarrow> SetOption ext now ''daily'' v fa = Returned (None, fa)) \<and>
   (\<not> dailyOn v \<and> \<not> dailyOff v \<longrightarrow>
      SetOption ext now ''daily'' v fa = Returned (Some ErrBadValue, fa))"
proof (intro conjI impI)
  assume a: "dailyOn v \<and> canPost ext fa"
  then have eq: "SetOption ext now ''daily'' v fa = storeDaily ext now True fa"
    by (auto simp add: dailyOn_def SetOption_daily_eq split: val.splits)
  show "\<exists>fa'. SetOption ext now ''daily'' v fa = Returned (None, fa') \<and>
         cycle fa' = 86400 \<and> clock fa' = 0 \<and> maxsize fa' = 0 \<and>
         sinkMaxSize (out fa') = 0 \<and>
         out fa' = SetMaxSize 0 (out fa) \<and>
         buf (loopReset fa') = buf (loopReset fa) @ (if loopRunning fa then [now] else []) \<and>
         closed (loopReset fa') = closed (loopReset fa) \<and>
         loopRunning fa' = loopRunning fa \<and> messages fa' = messages fa \<and>
         layout fa' = layout fa"
    using a unfolding eq by (simp add: storeDaily_True SetMaxSize_def)
next
  assume a: "dailyOn v \<and> loopRunning fa \<and> closed (loopReset fa)"
  then have eq: "SetOption ext now ''daily'' v fa = storeDaily ext now True fa"
    by (auto simp add: dailyOn_def SetOption_daily_eq split: val.splits)
  from a show "SetOption ext now ''daily'' v fa = Panicked"
    unfolding eq by (simp add: storeDaily_def postReset_closed finish_stuck)
next
  assume a: "dailyOn v \<and> loopRunning fa \<and> \<not> closed (loopReset fa) \<and>
    logBufferLength ext \<le> length (buf (loopReset fa))"
  then have eq: "SetOption ext now ''daily'' v fa = storeDaily ext now True fa"
    by (auto simp add: dailyOn_def SetOption_daily_eq split: val.splits)
  from a show "SetOption ext now ''daily'' v fa = Blocked"
    unfolding eq by (simp add: storeDaily_def postReset_full finish_stuck)
next
  assume "dailyOff v"
  then show "SetOption ext now ''daily'' v fa = Returned (None, fa)"
    by (auto simp add: dailyOff_def SetOption_daily_eq storeDaily_def split: val.splits)
next
  assume "\<not> dailyOn v \<and> \<not> dailyOff v"
  then show "SetOption ext now ''daily'' v fa = Returned (Some ErrBadValue, fa)"
    by (cases v) (simp_all add: dailyOn_def dailyOff_def SetOption_daily_eq)
qed

lemma Trim_zero: "Trim ''0'' whitespace = ''0''"
  by (simp add: Trim_def whitespace_def)

lemma Trim_False: "Trim ''False'' whitespace = ''False''"
  by (simp add: Trim_def whitespace_def)

lemma Trim_empty: "Trim [] whitespace = []"
  by (simp add: Trim_def)

theorem SetOption_daily_witness:
  "dailyOn (VString ''true'') \<and> canPost ext0 (fa0\<lparr>loopRunning := True\<rparr>) \<and>
   (\<exists>fa'. SetOption ext0 7 ''daily'' (VString ''true'') (fa0\<lparr>loopRunning := True\<rparr>) =
             Returned (None, fa') \<and>
      cycle fa' = 86400 \<and> clock fa' = 0 \<and> maxsize fa' = 0 \<and> sinkMaxSize (out fa') = 0 \<and>
      buf (loopReset fa') = [7]) \<and>
   dailyOn (VString []) \<and>
   (\<exists>fa'. SetOption ext0 7 ''daily'' (VString []) fa0 = Returned (None, fa') \<and>
      cycle fa' = 86400 \<and> clock fa' = 0 \<and> maxsize fa' = 0) \<and>
   dailyOff (VString '' false'') \<and>
   SetOption ext0 7 ''daily'' (VString '' false'') fa0 = Returned (None, fa0) \<and>
   SetOption ext0 7 ''daily'' (VBool True)
     (fa0\<lparr>loopRunning := True, loopReset := \<lparr>buf = [], closed = True\<rparr>\<rparr>) = Panicked \<and>
   SetOption ext0 7 ''daily'' (VInt 1) fa0 = Returned (Some ErrBadValue, fa0)"
proof -
  have t: "dailyOn (VString ''true'')"
    by (simp add: dailyOn_def Trim_true)
  have e: "dailyOn (VString [])"
    by (simp add: dailyOn_def Trim_empty)
  have f: "dailyOff (VString '' false'')"
    by (simp add: dailyOff_def Trim_false)
  have b: "buf (loopReset (fa0\<lparr>loopRunning := True\<rparr>)) = []"
    by (simp add: fa0_def NewAppender_def)
  from SetOption_daily [of "VString ''true''" ext0 "fa0\<lparr>loopRunning := True\<rparr>" 7]
    t canPost_running b
  have 1: "\<exists>fa'. SetOption ext0 7 ''daily'' (VString ''true'') (fa0\<lparr>loopRunning := True\<rparr>) =
             Returned (None, fa') \<and>
      cycle fa' = 86400 \<and> clock fa' = 0 \<and> maxsize fa' = 0 \<and> sinkMaxSize (out fa') = 0 \<and>
      buf (loopReset fa') = [7]"
    by auto
  from SetOption_daily [of "VString []" ext0 fa0 7] e canPost_fa0
  have 2: "\<exists>fa'. SetOption ext0 7 ''daily'' (VString []) fa0 = Returned (None, fa') \<and>
      cycle fa' = 86400 \<and> clock fa' = 0 \<and> maxsize fa' = 0"
    by auto
  from SetOption_daily [of "VString '' false''" ext0 fa0 7] f
  have 3: "SetOption ext0 7 ''daily'' (VString '' false'') fa0 = Returned (None, fa0)"
    by blast
  have "dailyOn (VBool True)" by (simp add: dailyOn_def)
  with SetOption_daily [of "VBool True" ext0
      "fa0\<lparr>loopRunning := True, loopReset := \<lparr>buf = [], closed = True\<rparr>\<rparr>" 7]
  have 4: "SetOption ext0 7 ''daily'' (VBool True)
     (fa0\<lparr>loopRunning := True, loopReset := \<lparr>buf = [], closed = True\<rparr>\<rparr>) = Panicked"
    by simp
  have "\<not> dailyOn (VInt 1) \<and> \<not> dailyOff (VInt 1)" by (simp add: dailyOn_def dailyOff_def)
  with SetOption_daily [of "VInt 1" ext0 fa0 7]
  have 5: "SetOption ext0 7 ''daily'' (VInt 1) fa0 = Returned (Some ErrBadValue, fa0)"
    by blast
  show ?thesis by (intro conjI t canPost_running 1 e 2 f 3 4 5)
qed

text \<open>
  C5 as stated fails: \<open>"0"\<close> and \<open>"False"\<close> are false for \<open>ToBool\<close>, and \<open>SetOption\<close>
  switches to daily mode on both.
\<close>

theorem SetOption_daily_false_counterexample:
  "ToBool (VString ''0'') = (False, None) \<and>
   SetOption ext0 7 ''daily'' (VString ''0'') fa0 =
     Returned (None, fa0\<lparr>cycle := 86400, clock := 0, maxsize := 0,
        out := SetMaxSize 0 (out fa0)\<rparr>) \<and>
   ToBool (VString ''False'') = (False, None) \<and>
   SetOption ext0 7 ''daily'' (VString ''False'') fa0 =
     Returned (None, fa0\<lparr>cycle := 86400, clock := 0, maxsize := 0,
        out := SetMaxSize 0 (out fa0)\<rparr>) \<and>
   clock fa0 = - 1 \<and>
   clock (fa0\<lparr>cycle := 86400, clock := 0, maxsize := 0, out := SetMaxSize 0 (out fa0)\<rparr>) = 0"
proof -
  have 1: "ToBool (VString ''0'') = (False, None)" "ToBool (VString ''False'') = (False, None)"
    by (simp_all add: ToBool_def ParseBool_def)
  have 2: "SetOption ext0 7 ''daily'' (VString ''0'') fa0 =
     Returned (None, fa0\<lparr>cycle := 86400, clock := 0, maxsize := 0,
        out := SetMaxSize 0 (out fa0)\<rparr>)"
    by (simp add: SetOption_daily_eq Trim_zero storeDaily_def postReset_def finish_def fa0_def
        NewAppender_def)
  have 3: "SetOption ext0 7 ''daily'' (VString ''False'') fa0 =
     Returned (None, fa0\<lparr>cycle := 86400, clock := 0, maxsize := 0,
        out := SetMaxSize 0 (out fa0)\<rparr>)"
    by (simp add: SetOption_daily_eq Trim_False storeDaily_def postReset_def finish_def fa0_def
        NewAppender_def)
  have 4: "clock fa0 = - 1" by (simp add: fa0_def NewAppender_def)
  have 5: "clock (fa0\<lparr>cycle := 86400, clock := 0, maxsize := 0,
      out := SetMaxSize 0 (out fa0)\<rparr>) = 0" by simp
  show ?thesis by (intro conjI 1 2 3 4 5)
qed

lemma storeCycle_canPost:
  "canPost ext fa \<Longrightarrow>
   storeCycle ext now n fa = Returned (None, posted now (setThreshold (fa\<lparr>cycle := n\<rparr>)))"
  by (simp add: storeCycle_def canPost_def postReset_def posted_def send_def finish_def
      setThreshold_def)

lemma storeClock_canPost:
  "canPost ext fa \<Longrightarrow>
   storeClock ext now n fa = Returned (None, posted now (fa\<lparr>clock := n\<rparr>))"
  by (simp add: storeClock_def canPost_def postReset_def posted_def send_def finish_def)


text \<open>
  C4. After \<open>SetOption("cycle", v)\<close> the writer's threshold is \<open>maxsize\<close> when the new cycle
  is at most 0 and 0 when it is above 0, set by one \<open>SetMaxSize\<close> call; after
  \<open>SetOption("maxsize", v)\<close> the threshold is the new \<open>maxsize\<close> when the current cycle is at
  most 0, and the writer is not touched when it is above 0.
\<close>

theorem SetOption_rotation_mode:
  "(cycleOf ext v = Some n \<and> canPost ext fa \<longrightarrow>
      (\<exists>fa'. SetOption ext now ''cycle'' v fa = Returned (None, fa') \<and>
         cycle fa' = n \<and> maxsize fa' = maxsize fa \<and>
         sinkMaxSize (out fa') = (if cycle fa' \<le> 0 then maxsize fa' else 0) \<and>
         calls (out fa') =
           calls (out fa) @ [CSetMaxSize (if cycle fa' \<le> 0 then maxsize fa' else 0)])) \<and>
   (sizeOf v = Some m \<longrightarrow>
      (\<exists>fa'. SetOption ext now ''maxsize'' v fa = Returned (None, fa') \<and>
         maxsize fa' = m \<and> cycle fa' = cycle fa \<and>
         out fa' = (if cycle fa \<le> 0 then SetMaxSize m (out fa) else out fa) \<and>
         sinkMaxSize (out fa') = (if cycle fa \<le> 0 then m else sinkMaxSize (out fa))))"
proof (intro conjI impI)
  assume a: "cycleOf ext v = Some n \<and> canPost ext fa"
  then have "SetOption ext now ''cycle'' v fa = storeCycle ext now n fa"
    by (auto simp add: cycleOf_def SetOption_cycle_eq split: val.splits)
  with a have "SetOption ext now ''cycle'' v fa =
      Returned (None, posted now (setThreshold (fa\<lparr>cycle := n\<rparr>)))"
    by (simp add: storeCycle_canPost)
  then show "\<exists>fa'. SetOption ext now ''cycle'' v fa = Returned (None, fa') \<and>
         cycle fa' = n \<and> maxsize fa' = maxsize fa \<and>
         sinkMaxSize (out fa') = (if cycle fa' \<le> 0 then maxsize fa' else 0) \<and>
         calls (out fa') =
           calls (out fa) @ [CSetMaxSize (if cycle fa' \<le> 0 then maxsize fa' else 0)]"
    by (simp add: setThreshold_def SetMaxSize_def)
next
  assume "sizeOf v = Some m"
  then have "SetOption ext now ''maxsize'' v fa = Returned (None, storeMaxsize m fa)"
    by (auto simp add: sizeOf_def SetOption_maxsize_eq split: val.splits)
  then show "\<exists>fa'. SetOption ext now ''maxsize'' v fa = Returned (None, fa') \<and>
         maxsize fa' = m \<and> cycle fa' = cycle fa \<and>
         out fa' = (if cycle fa \<le> 0 then SetMaxSize m (out fa) else out fa) \<and>
         sinkMaxSize (out fa') = (if cycle fa \<le> 0 then m else sinkMaxSize (out fa))"
    by (simp add: storeMaxsize_def SetMaxSize_def)
qed

theorem SetOption_rotation_mode_witness:
  "cycleOf ext0 (VString ''1h'') = Some 3600 \<and> canPost ext0 fa0 \<and>
   (\<exists>fa'. SetOption ext0 7 ''cycle'' (VString ''1h'') fa0 = Returned (None, fa') \<and>
      cycle fa' = 3600 \<and> sinkMaxSize (out fa') = 0) \<and>
   sizeOf (VInt 1024) = Some 1024 \<and>
   (\<exists>fa'. SetOption ext0 7 ''maxsize'' (VInt 1024) (fa0\<lparr>cycle := 0\<rparr>) = Returned (None, fa') \<and>
      maxsize fa' = 1024 \<and> sinkMaxSize (out fa') = 1024)"
proof -
  have c: "cycleOf ext0 (VString ''1h'') = Some 3600"
    by (simp add: cycleOf_def ext0_def tdiv_def)
  have s: "sizeOf (VInt 1024) = Some 1024"
    by (simp add: sizeOf_def)
  from SetOption_rotation_mode [of ext0 "VString ''1h''" 3600 fa0 7 1024] c canPost_fa0
  have 1: "\<exists>fa'. SetOption ext0 7 ''cycle'' (VString ''1h'') fa0 = Returned (None, fa') \<and>
      cycle fa' = 3600 \<and> sinkMaxSize (out fa') = 0"
    by auto
  from SetOption_rotation_mode [of ext0 "VInt 1024" 0 "fa0\<lparr>cycle := 0\<rparr>" 7 1024] s
  have 2: "\<exists>fa'. SetOption ext0 7 ''maxsize'' (VInt 1024) (fa0\<lparr>cycle := 0\<rparr>) = Returned (None, fa') \<and>
      maxsize fa' = 1024 \<and> sinkMaxSize (out fa') = 1024"
    by auto
  show ?thesis by (intro conjI c s 1 2 canPost_fa0)
qed

lemma SetOption_filename_eq:
  "SetOption ext now ''filename'' v fa =
     (case v of
        VString filename \<Rightarrow>
          if length filename \<le> 0 then Returned (Some ErrBadValue, fa)
          else (case mkdirAll ext filename of
                  Some msg \<Rightarrow> Returned (Some (ErrOther msg), fa)
                | None \<Rightarrow> Returned (None, fa\<lparr>out := SetFileName filename (out fa)\<rparr>))
      | _ \<Rightarrow> Returned (Some ErrBadValue, fa))"
  by (simp add: SetOption_def)

lemma SetOption_flush_eq:
  "SetOption ext now ''flush'' v fa =
     (case v of
        VInt n \<Rightarrow> Returned (None, fa\<lparr>out := SetFlush n (out fa)\<rparr>)
      | VString s \<Rightarrow>
          Returned (None,
            fa\<lparr>out := SetFlush (StrToNumSuffix (Trim s whitespace) 1024) (out fa)\<rparr>)
      | _ \<Rightarrow> Returned (Some ErrBadValue, fa))"
  by (simp add: SetOption_def)

lemma SetOption_maxbackup_eq:
  "SetOption ext now ''maxbackup'' v fa =
     (case v of
        VInt n \<Rightarrow> Returned (None, fa\<lparr>out := SetMaxBackup n (out fa)\<rparr>)
      | VString s \<Rightarrow>
          Returned (None,
            fa\<lparr>out := SetMaxBackup (StrToNumSuffix (Trim s whitespace) 1) (out fa)\<rparr>)
      | _ \<Rightarrow> Returned (Some ErrBadValue, fa))"
  by (simp add: SetOption_def)

lemma SetOption_head_eq:
  "SetOption ext now ''head'' v fa =
     (case v of
        VString header \<Rightarrow> Returned (None, fa\<lparr>out := SetHead header (out fa)\<rparr>)
      | _ \<Rightarrow> Returned (Some ErrBadValue, fa))"
  by (simp add: SetOption_def)

lemma SetOption_foot_eq:
  "SetOption ext now ''foot'' v fa =
     (case v of
        VString footer \<Rightarrow> Returned (None, fa\<lparr>out := SetFoot footer (out fa)\<rparr>)
      | _ \<Rightarrow> Returned (Some ErrBadValue, fa))"
  by (simp add: SetOption_def)

lemma ownOptions_cases:
  assumes "ownOption name"
  obtains "name = ''filename''" | "name = ''flush''" | "name = ''maxbackup''"
    | "name = ''maxsize''" | "name = ''head''" | "name = ''foot''" | "name = ''cycle''"
    | "name = ''clock'' \<or> name = ''delay0''" | "name = ''daily''"
  using assms unfolding ownOption_def by (elim disjE) (erule that | rule that, simp)+

lemma finish_not_bad: "finish a \<noteq> Returned (Some e, fa')"
  by (cases a) (simp_all add: finish_def)

lemma storeDaily_not_bad: "storeDaily ext now b fa \<noteq> Returned (Some e, fa')"
  by (simp add: storeDaily_def finish_not_bad)

lemma SetOption_wrong_type:
  assumes "ownOption name" and "\<not> typeAccepted name v"
  shows "SetOption ext now name v fa = Returned (Some ErrBadValue, fa)"
  using assms(1)
proof (cases rule: ownOptions_cases)
  case 1 with assms(2) show ?thesis
    by (cases v) (simp_all add: SetOption_filename_eq typeAccepted_def)
next
  case 2 with assms(2) show ?thesis
    by (cases v) (simp_all add: SetOption_flush_eq typeAccepted_def)
next
  case 3 with assms(2) show ?thesis
    by (cases v) (simp_all add: SetOption_maxbackup_eq typeAccepted_def)
next
  case 4 with assms(2) show ?thesis
    by (cases v) (simp_all add: SetOption_maxsize_eq typeAccepted_def)
next
  case 5 with assms(2) show ?thesis
    by (cases v) (simp_all add: SetOption_head_eq typeAccepted_def)
next
  case 6 with assms(2) show ?thesis
    by (cases v) (simp_all add: SetOption_foot_eq typeAccepted_def)
next
  case 7 with assms(2) show ?thesis
    by (cases v) (simp_all add: SetOption_cycle_eq typeAccepted_def)
next
  case 8
  then have "typeAccepted name v = (case v of VInt n \<Rightarrow> True | VString s \<Rightarrow> True | _ \<Rightarrow> False)"
    by (auto simp add: typeAccepted_def)
  with 8 assms(2) show ?thesis
    by (cases v) (simp_all add: SetOption_clock_eq)
next
  case 9 with assms(2) show ?thesis
    by (cases v) (simp_all add: SetOption_daily_eq typeAccepted_def)
qed

lemma SetOption_right_type:
  assumes "ownOption name" and "typeAccepted name v"
  shows "SetOption ext now name v fa \<noteq> Returned (Some ErrBadValue, fa')"
  using assms(1)
proof (cases rule: ownOptions_cases)
  case 1 with assms(2) show ?thesis
    by (cases v) (simp_all add: SetOption_filename_eq typeAccepted_def split: option.splits)
next
  case 2 with assms(2) show ?thesis
    by (cases v) (simp_all add: SetOption_flush_eq typeAccepted_def)
next
  case 3 with assms(2) show ?thesis
    by (cases v) (simp_all add: SetOption_maxbackup_eq typeAccepted_def)
next
  case 4 with assms(2) show ?thesis
    by (cases v) (simp_all add: SetOption_maxsize_eq typeAccepted_def)
next
  case 5 with assms(2) show ?thesis
    by (cases v) (simp_all add: SetOption_head_eq typeAccepted_def)
next
  case 6 with assms(2) show ?thesis
    by (cases v) (simp_all add: SetOption_foot_eq typeAccepted_def)
next
  case 7 with assms(2) show ?thesis
    by (cases v) (simp_all add: SetOption_cycle_eq typeAccepted_def storeCycle_def finish_not_bad)
next
  case 8
  then have "typeAccepted name v = (case v of VInt n \<Rightarrow> True | VString s \<Rightarrow> True | _ \<Rightarrow> False)"
    by (auto simp add: typeAccepted_def)
  with 8 assms(2) show ?thesis
    by (cases v) (simp_all add: SetOption_clock_eq storeClock_def finish_not_bad)
next
  case 9 with assms(2) show ?thesis
    by (cases v) (simp_all add: SetOption_daily_eq typeAccepted_def storeDaily_not_bad)
qed

lemma SetOption_layout_eq:
  "layoutOption name \<Longrightarrow>
   SetOption ext now name v fa =
     Returned (fst (layoutSetOption ext name v (layout fa)),
               fa\<lparr>layout := snd (layoutSetOption ext name v (layout fa))\<rparr>)"
  unfolding layoutOption_def by (elim disjE) (simp_all add: SetOption_def Let_def)

lemma SetOption_other_eq:
  "\<not> ownOption name \<Longrightarrow> \<not> layoutOption name \<Longrightarrow>
   SetOption ext now name v fa = Returned (Some ErrBadOption, fa)"
  by (simp add: SetOption_def ownOption_def layoutOption_def)

lemma SetOption_string_no_error:
  assumes "stringParsed name"
  shows "SetOption ext now name (VString s) fa \<noteq> Returned (Some e, fa')"
proof -
  from assms consider "name = ''cycle''" | "name = ''clock'' \<or> name = ''delay0''"
    | "name = ''maxsize''" | "name = ''daily''"
    unfolding stringParsed_def by blast
  then show ?thesis
  proof cases
    case 1
    then show ?thesis by (simp add: SetOption_cycle_eq storeCycle_def finish_not_bad)
  next
    case 2
    then show ?thesis by (simp add: SetOption_clock_eq storeClock_def finish_not_bad)
  next
    case 3
    then show ?thesis by (simp add: SetOption_maxsize_eq)
  next
    case 4
    then show ?thesis by (simp add: SetOption_daily_eq storeDaily_not_bad)
  qed
qed

lemma string_cycle_stored:
  "canPost ext fa \<Longrightarrow>
   \<exists>fa'. SetOption ext now ''cycle'' (VString s) fa = Returned (None, fa') \<and>
     cycle fa' = wholeSeconds ext s"
  by (simp add: SetOption_cycle_eq storeCycle_canPost setThreshold_def wholeSeconds_def)

lemma string_clock_stored:
  "name = ''clock'' \<or> name = ''delay0'' \<Longrightarrow> canPost ext fa \<Longrightarrow>
   \<exists>fa'. SetOption ext now name (VString s) fa = Returned (None, fa') \<and>
     clock fa' = wholeSeconds ext s"
  by (simp add: SetOption_clock_eq storeClock_canPost wholeSeconds_def)

lemma string_maxsize_stored:
  "\<exists>fa'. SetOption ext now ''maxsize'' (VString s) fa = Returned (None, fa') \<and>
     maxsize fa' = StrToNumSuffix (Trim s whitespace) 1024"
  by (simp add: SetOption_maxsize_eq storeMaxsize_def Let_def)

lemma string_daily_stored:
  "canPost ext fa \<Longrightarrow>
   \<exists>fa'. SetOption ext now ''daily'' (VString s) fa = Returned (None, fa') \<and>
     (if Trim s whitespace = ''false'' then fa' = fa
      else cycle fa' = 86400 \<and> clock fa' = 0 \<and> maxsize fa' = 0)"
proof (cases "Trim s whitespace = ''false''")
  case True
  then show ?thesis by (simp add: SetOption_daily_eq storeDaily_def)
next
  case False
  assume "canPost ext fa"
  with False show ?thesis by (simp add: SetOption_daily_eq storeDaily_True)
qed

lemma string_stuck:
  assumes "name = ''cycle'' \<or> name = ''clock'' \<or> name = ''delay0''" and "loopRunning fa"
  shows "closed (loopReset fa) \<Longrightarrow> SetOption ext now name (VString s) fa = Panicked"
    and "\<not> closed (loopReset fa) \<Longrightarrow> logBufferLength ext \<le> length (buf (loopReset fa)) \<Longrightarrow>
         SetOption ext now name (VString s) fa = Blocked"
proof -
  have c: "name = ''cycle'' \<Longrightarrow> SetOption ext now name (VString s) fa =
      finish (postReset ext now (setThreshold (fa\<lparr>cycle := wholeSeconds ext s\<rparr>)))"
    by (simp add: SetOption_cycle_eq storeCycle_def wholeSeconds_def)
  have k: "name = ''clock'' \<or> name = ''delay0'' \<Longrightarrow> SetOption ext now name (VString s) fa =
      finish (postReset ext now (fa\<lparr>clock := wholeSeconds ext s\<rparr>))"
    by (simp add: SetOption_clock_eq storeClock_def wholeSeconds_def)
  have t: "loopRunning (setThreshold (fa\<lparr>cycle := wholeSeconds ext s\<rparr>)) = loopRunning fa"
    "loopReset (setThreshold (fa\<lparr>cycle := wholeSeconds ext s\<rparr>)) = loopReset fa"
    by (simp_all add: setThreshold_def)
  show "closed (loopReset fa) \<Longrightarrow> SetOption ext now name (VString s) fa = Panicked"
    using assms c k t by (auto simp add: postReset_closed finish_stuck)
  show "\<not> closed (loopReset fa) \<Longrightarrow> logBufferLength ext \<le> length (buf (loopReset fa)) \<Longrightarrow>
         SetOption ext now name (VString s) fa = Blocked"
    using assms c k t by (auto simp add: postReset_full finish_stuck)
qed

lemma wholeSeconds_zero: "parseDuration ext s = 0 \<Longrightarrow> wholeSeconds ext s = 0"
  by (simp add: wholeSeconds_def tdiv_def)

lemma Atoi_syntax_zero: "snd (Atoi s) = ErrSyntax \<Longrightarrow> fst (Atoi s) = 0"
  by (auto simp add: Atoi_def ParseInt_def Let_def split: if_splits)

lemma int64_zero: "int64 0 = 0"
  by (simp add: int64_def)

lemma StrToNumSuffix_syntax:
  assumes "snd (Atoi (numberPart str)) = ErrSyntax"
  shows "StrToNumSuffix str mult = 0"
proof -
  from assms have z: "fst (Atoi (numberPart str)) = 0" by (rule Atoi_syntax_zero)
  show ?thesis
  proof (cases "length str > 1 \<and> last str \<in> set ''GgMmKk''")
    case True
    then have "numberPart str = butlast str" unfolding numberPart_def by (rule if_P)
    with z have "fst (Atoi (butlast str)) = 0" by simp
    with True show ?thesis
      by (auto simp add: StrToNumSuffix_def Let_def int64_zero)
  next
    case False
    then have "numberPart str = str" unfolding numberPart_def by (rule if_not_P)
    with z have "fst (Atoi str) = 0" by simp
    with False show ?thesis
      by (auto simp add: StrToNumSuffix_def Let_def int64_zero)
  qed
qed


text \<open>
  C6, as amended. For \<open>pattern\<close>, \<open>format\<close> and \<open>utc\<close> \<open>SetOption\<close> returns the layout's
  own result and changes nothing but the layout. For each of the other ten options it returns
  the bad-value error exactly when the dynamic type of the value is not accepted (or the file
  name is empty), and then the appender is unchanged. A string is never rejected for what it
  holds: for \<open>cycle\<close>, \<open>clock\<close>, \<open>delay0\<close>, \<open>maxsize\<close> and \<open>daily\<close> no string makes
  \<open>SetOption\<close> return an error. When the token can be sent, \<open>cycle\<close>, \<open>clock\<close> and
  \<open>delay0\<close> return nil with the whole seconds of the parsed duration stored (0 when the
  parser yields 0), and \<open>daily\<close> returns nil, unchanged for \<open>"false"\<close> and in daily mode
  for any other string; \<open>maxsize\<close> always returns nil with \<open>StrToNumSuffix\<close> of the trimmed
  string stored, which is 0 when \<open>Atoi\<close> reports a syntax error on the number part. With
  the loop running, \<open>cycle\<close>, \<open>clock\<close> and \<open>delay0\<close> panic on a closed \<open>loopReset\<close> and
  block on a full one.
\<close>

theorem SetOption_bad_value:
  "(ownOption name \<and> \<not> typeAccepted name v \<longrightarrow>
      SetOption ext now name v fa = Returned (Some ErrBadValue, fa)) \<and>
   (ownOption name \<and> typeAccepted name v \<longrightarrow>
      (\<forall>fa'. SetOption ext now name v fa \<noteq> Returned (Some ErrBadValue, fa'))) \<and>
   (layoutOption name \<longrightarrow>
      SetOption ext now name v fa =
        Returned (fst (layoutSetOption ext name v (layout fa)),
                  fa\<lparr>layout := snd (layoutSetOption ext name v (layout fa))\<rparr>)) \<and>
   (stringParsed name \<longrightarrow>
      (\<forall>e fa'. SetOption ext now name (VString s) fa \<noteq> Returned (Some e, fa'))) \<and>
   (canPost ext fa \<longrightarrow>
      (\<exists>fa'. SetOption ext now ''cycle'' (VString s) fa = Returned (None, fa') \<and>
         cycle fa' = wholeSeconds ext s) \<and>
      (\<exists>fa'. SetOption ext now ''clock'' (VString s) fa = Returned (None, fa') \<and>
         clock fa' = wholeSeconds ext s) \<and>
      (\<exists>fa'. SetOption ext now ''delay0'' (VString s) fa = Returned (None, fa') \<and>
         clock fa' = wholeSeconds ext s) \<and>
      (\<exists>fa'. SetOption ext now ''daily'' (VString s) fa = Returned (None, fa') \<and>
         (if Trim s whitespace = ''false'' then fa' = fa
          else cycle fa' = 86400 \<and> clock fa' = 0 \<and> maxsize fa' = 0))) \<and>
   (\<exists>fa'. SetOption ext now ''maxsize'' (VString s) fa = Returned (None, fa') \<and>
      maxsize fa' = StrToNumSuffix (Trim s whitespace) 1024) \<and>
   (parseDuration ext s = 0 \<longrightarrow> wholeSeconds ext s = 0) \<and>
   (snd (Atoi (numberPart (Trim s whitespace))) = ErrSyntax \<longrightarrow>
      StrToNumSuffix (Trim s whitespace) 1024 = 0) \<and>
   (loopRunning fa \<and> closed (loopReset fa) \<longrightarrow>
      SetOption ext now ''cycle'' (VString s) fa = Panicked \<and>
      SetOption ext now ''clock'' (VString s) fa = Panicked \<and>
      SetOption ext now ''delay0'' (VString s) fa = Panicked) \<and>
   (loopRunning fa \<and> \<not> closed (loopReset fa) \<and>
    logBufferLength ext \<le> length (buf (loopReset fa)) \<longrightarrow>
      SetOption ext now ''cycle'' (VString s) fa = Blocked \<and>
      SetOption ext now ''clock'' (VString s) fa = Blocked \<and>
      SetOption ext now ''delay0'' (VString s) fa = Blocked)"
proof -
  have 1: "ownOption name \<and> \<not> typeAccepted name v \<longrightarrow>
      SetOption ext now name v fa = Returned (Some ErrBadValue, fa)"
    using SetOption_wrong_type [of name v ext now fa] by blast
  have 2: "ownOption name \<and> typeAccepted name v \<longrightarrow>
      (\<forall>fa'. SetOption ext now name v fa \<noteq> Returned (Some ErrBadValue, fa'))"
    using SetOption_right_type [of name v ext now fa] by blast
  have 3: "layoutOption name \<longrightarrow>
      SetOption ext now name v fa =
        Returned (fst (layoutSetOption ext name v (layout fa)),
                  fa\<lparr>layout := snd (layoutSetOption ext name v (layout fa))\<rparr>)"
    using SetOption_layout_eq [of name ext now v fa] by blast
  have 4: "stringParsed name \<longrightarrow>
      (\<forall>e fa'. SetOption ext now name (VString s) fa \<noteq> Returned (Some e, fa'))"
    using SetOption_string_no_error [of name ext now s fa] by blast
  have 5: "canPost ext fa \<longrightarrow>
      (\<exists>fa'. SetOption ext now ''cycle'' (VString s) fa = Returned (None, fa') \<and>
         cycle fa' = wholeSeconds ext s) \<and>
      (\<exists>fa'. SetOption ext now ''clock'' (VString s) fa = Returned (None, fa') \<and>
         clock fa' = wholeSeconds ext s) \<and>
      (\<exists>fa'. SetOption ext now ''delay0'' (VString s) fa = Returned (None, fa') \<and>
         clock fa' = wholeSeconds ext s) \<and>
      (\<exists>fa'. SetOption ext now ''daily'' (VString s) fa = Returned (None, fa') \<and>
         (if Trim s whitespace = ''false'' then fa' = fa
          else cycle fa' = 86400 \<and> clock fa' = 0 \<and> maxsize fa' = 0))"
    using string_cycle_stored [of ext fa now s]
      string_clock_stored [of "''clock''" ext fa now s]
      string_clock_stored [of "''delay0''" ext fa now s]
      string_daily_stored [of ext fa now s]
    by simp
  have 6: "\<exists>fa'. SetOption ext now ''maxsize'' (VString s) fa = Returned (None, fa') \<and>
      maxsize fa' = StrToNumSuffix (Trim s whitespace) 1024"
    by (rule string_maxsize_stored)
  have 7: "parseDuration ext s = 0 \<longrightarrow> wholeSeconds ext s = 0"
    using wholeSeconds_zero [of ext s] by blast
  have 8: "snd (Atoi (numberPart (Trim s whitespace))) = ErrSyntax \<longrightarrow>
      StrToNumSuffix (Trim s whitespace) 1024 = 0"
    using StrToNumSuffix_syntax [of "Trim s whitespace" 1024] by blast
  have 9: "loopRunning fa \<and> closed (loopReset fa) \<longrightarrow>
      SetOption ext now ''cycle'' (VString s) fa = Panicked \<and>
      SetOption ext now ''clock'' (VString s) fa = Panicked \<and>
      SetOption ext now ''delay0'' (VString s) fa = Panicked"
    using string_stuck(1) [of "''cycle''" fa ext now s]
      string_stuck(1) [of "''clock''" fa ext now s]
      string_stuck(1) [of "''delay0''" fa ext now s]
    by simp
  have 10: "loopRunning fa \<and> \<not> closed (loopReset fa) \<and>
    logBufferLength ext \<le> length (buf (loopReset fa)) \<longrightarrow>
      SetOption ext now ''cycle'' (VString s) fa = Blocked \<and>
      SetOption ext now ''clock'' (VString s) fa = Blocked \<and>
      SetOption ext now ''delay0'' (VString s) fa = Blocked"
    using string_stuck(2) [of "''cycle''" fa ext now s]
      string_stuck(2) [of "''clock''" fa ext now s]
      string_stuck(2) [of "''delay0''" fa ext now s]
    by simp
  show ?thesis by (intro conjI 1 2 3 4 5 6 7 8 9 10)
qed


theorem SetOption_bad_value_witness:
  "ownOption ''cycle'' \<and> \<not> typeAccepted ''cycle'' (VBool True) \<and>
   SetOption ext0 7 ''cycle'' (VBool True) fa0 = Returned (Some ErrBadValue, fa0) \<and>
   layoutOption ''utc'' \<and>
   SetOption ext0 7 ''utc'' (VBool True) fa0 = Returned (None, fa0\<lparr>layout := ()\<rparr>) \<and>
   stringParsed ''cycle'' \<and> canPost ext0 fa0 \<and> parseDuration ext0 ''soon'' = 0 \<and>
   (\<exists>fa'. SetOption ext0 7 ''cycle'' (VString ''soon'') fa0 = Returned (None, fa') \<and>
      cycle fa' = 0) \<and>
   snd (Atoi (numberPart (Trim ''abc'' whitespace))) = ErrSyntax \<and>
   (\<exists>fa'. SetOption ext0 7 ''maxsize'' (VString ''abc'') fa0 = Returned (None, fa') \<and>
      maxsize fa' = 0) \<and>
   SetOption ext0 7 ''clock'' (VString ''soon'')
     (fa0\<lparr>loopRunning := True, loopReset := \<lparr>buf = [], closed = True\<rparr>\<rparr>) = Panicked"
proof -
  have o: "ownOption ''cycle''" by (simp add: ownOption_def)
  have p: "stringParsed ''cycle''" by (simp add: stringParsed_def)
  have l: "layoutOption ''utc''" by (simp add: layoutOption_def)
  have n: "\<not> typeAccepted ''cycle'' (VBool True)" by (simp add: typeAccepted_def)
  have d: "parseDuration ext0 ''soon'' = 0" by (simp add: ext0_def)
  have t: "Trim ''abc'' whitespace = ''abc''" by (simp add: Trim_def whitespace_def)
  have a: "snd (Atoi (numberPart (Trim ''abc'' whitespace))) = ErrSyntax"
    by (simp add: t numberPart_def Atoi_def ParseInt_def ParseUint_def isDigit_def Let_def)
  have y: "layoutSetOption ext0 ''utc'' (VBool True) (layout fa0) = (None, ())"
    by (simp add: ext0_def)
  have r: "loopRunning (fa0\<lparr>loopRunning := True, loopReset := \<lparr>buf = [], closed = True\<rparr>\<rparr>) \<and>
      closed (loopReset (fa0\<lparr>loopRunning := True, loopReset := \<lparr>buf = [], closed = True\<rparr>\<rparr>))"
    by simp
  note A = SetOption_bad_value [where name = "''cycle''" and v = "VBool True"
      and s = "''soon''" and ext = ext0 and now = 7 and fa = fa0]
  note B = SetOption_bad_value [where name = "''utc''" and v = "VBool True"
      and s = "''abc''" and ext = ext0 and now = 7 and fa = fa0]
  note C = SetOption_bad_value [where name = "''cycle''" and v = "VBool True"
      and s = "''soon''" and ext = ext0 and now = 7
      and fa = "fa0\<lparr>loopRunning := True, loopReset := \<lparr>buf = [], closed = True\<rparr>\<rparr>"]
  from A [THEN conjunct1] o n
  have 1: "SetOption ext0 7 ''cycle'' (VBool True) fa0 = Returned (Some ErrBadValue, fa0)"
    by simp
  from B [THEN conjunct2, THEN conjunct2, THEN conjunct1] l y
  have 2: "SetOption ext0 7 ''utc'' (VBool True) fa0 = Returned (None, fa0\<lparr>layout := ()\<rparr>)"
    by simp
  from A [THEN conjunct2, THEN conjunct2, THEN conjunct2, THEN conjunct2, THEN conjunct1,
      THEN mp, OF canPost_fa0, THEN conjunct1]
    A [THEN conjunct2, THEN conjunct2, THEN conjunct2, THEN conjunct2, THEN conjunct2,
      THEN conjunct2, THEN conjunct1, THEN mp, OF d]
  have 3: "\<exists>fa'. SetOption ext0 7 ''cycle'' (VString ''soon'') fa0 = Returned (None, fa') \<and>
      cycle fa' = 0"
    by simp
  from B [THEN conjunct2, THEN conjunct2, THEN conjunct2, THEN conjunct2, THEN conjunct2,
      THEN conjunct1]
    B [THEN conjunct2, THEN conjunct2, THEN conjunct2, THEN conjunct2, THEN conjunct2,
      THEN conjunct2, THEN conjunct2, THEN conjunct1, THEN mp, OF a]
  have 4: "\<exists>fa'. SetOption ext0 7 ''maxsize'' (VString ''abc'') fa0 = Returned (None, fa') \<and>
      maxsize fa' = 0"
    by simp
  from C [THEN conjunct2, THEN conjunct2, THEN conjunct2, THEN conjunct2, THEN conjunct2,
      THEN conjunct2, THEN conjunct2, THEN conjunct2, THEN conjunct1, THEN mp, OF r,
      THEN conjunct2, THEN conjunct1]
  have 5: "SetOption ext0 7 ''clock'' (VString ''soon'')
     (fa0\<lparr>loopRunning := True, loopReset := \<lparr>buf = [], closed = True\<rparr>\<rparr>) = Panicked" .
  show ?thesis by (intro conjI o n 1 l 2 p canPost_fa0 d 3 a 4 5)
qed

text \<open>
  C6 as stated fails: the string \<open>"xyz"\<close> for \<open>daily\<close> and the string \<open>"abc"\<close> for
  \<open>maxsize\<close> both return nil, and both change the appender.
\<close>

theorem SetOption_bad_string_counterexample:
  "SetOption ext0 7 ''daily'' (VString ''xyz'') fa0 =
     Returned (None, fa0\<lparr>cycle := 86400, clock := 0, maxsize := 0,
        out := SetMaxSize 0 (out fa0)\<rparr>) \<and>
   fa0\<lparr>cycle := 86400, clock := 0, maxsize := 0, out := SetMaxSize 0 (out fa0)\<rparr> \<noteq> fa0 \<and>
   SetOption ext0 7 ''maxsize'' (VString ''abc'') (fa0\<lparr>maxsize := 5\<rparr>) =
     Returned (None, fa0\<lparr>maxsize := 0\<rparr>) \<and>
   fa0\<lparr>maxsize := 0\<rparr> \<noteq> fa0\<lparr>maxsize := 5\<rparr>"
proof -
  have t1: "Trim ''xyz'' whitespace = ''xyz''" by (simp add: Trim_def whitespace_def)
  have t2: "Trim ''abc'' whitespace = ''abc''" by (simp add: Trim_def whitespace_def)
  have n: "StrToNumSuffix ''abc'' 1024 = 0"
    by (simp add: StrToNumSuffix_def Atoi_def ParseInt_def ParseUint_def isDigit_def int64_def)
  have 1: "SetOption ext0 7 ''daily'' (VString ''xyz'') fa0 =
     Returned (None, fa0\<lparr>cycle := 86400, clock := 0, maxsize := 0,
        out := SetMaxSize 0 (out fa0)\<rparr>)"
    by (simp add: SetOption_daily_eq t1 storeDaily_def postReset_def finish_def fa0_def
        NewAppender_def)
  have 2: "fa0\<lparr>cycle := 86400, clock := 0, maxsize := 0, out := SetMaxSize 0 (out fa0)\<rparr> \<noteq> fa0"
  proof
    assume "fa0\<lparr>cycle := 86400, clock := 0, maxsize := 0, out := SetMaxSize 0 (out fa0)\<rparr> = fa0"
    then have "clock (fa0\<lparr>cycle := 86400, clock := 0, maxsize := 0,
        out := SetMaxSize 0 (out fa0)\<rparr>) = clock fa0" by simp
    then show False by (simp add: fa0_def NewAppender_def)
  qed
  have 3: "SetOption ext0 7 ''maxsize'' (VString ''abc'') (fa0\<lparr>maxsize := 5\<rparr>) =
     Returned (None, fa0\<lparr>maxsize := 0\<rparr>)"
    by (simp add: SetOption_maxsize_eq t2 n storeMaxsize_def fa0_def NewAppender_def)
  have 4: "fa0\<lparr>maxsize := 0\<rparr> \<noteq> fa0\<lparr>maxsize := 5\<rparr>"
  proof
    assume "fa0\<lparr>maxsize := 0\<rparr> = fa0\<lparr>maxsize := 5\<rparr>"
    then have "maxsize (fa0\<lparr>maxsize := 0\<rparr>) = maxsize (fa0\<lparr>maxsize := 5\<rparr>)" by simp
    then show False by simp
  qed
  show ?thesis by (intro conjI 1 2 3 4)
qed

section \<open>Properties of nextTime\<close>

lemma int64_id: "- (2 ^ 63) \<le> x \<Longrightarrow> x < 2 ^ 63 \<Longrightarrow> int64 x = x"
  by (simp add: int64_def)

lemma seconds_id: "- 9223372036 \<le> n \<Longrightarrow> n \<le> 9223372036 \<Longrightarrow> seconds n = n * 1000000000"
  unfolding seconds_def by (rule int64_id) simp_all

text \<open>
  C2, as amended. When the cycle in use and the clock are at most 9223372036 seconds (their
  nanosecond counts fit a \<open>Duration\<close>), the deadline is \<open>now\<close> plus the cycle for a clock
  below 0, and otherwise midnight of the day of \<open>now\<close> plus the cycle, plus the clock.
\<close>

theorem nextTime_deadline:
  assumes "effectiveCycle cycle0 \<le> 9223372036" and "clock0 \<le> 9223372036"
  shows "nextTime ext now cycle0 clock0 =
     (if clock0 < 0 then now + effectiveCycle cycle0 * 1000000000
      else midnight ext (now + effectiveCycle cycle0 * 1000000000) + clock0 * 1000000000)"
proof -
  have "0 < effectiveCycle cycle0" by (simp add: effectiveCycle_def)
  with assms(1) have c: "seconds (effectiveCycle cycle0) = effectiveCycle cycle0 * 1000000000"
    by (intro seconds_id) simp_all
  show ?thesis
  proof (cases "clock0 < 0")
    case True
    then show ?thesis using c by (simp add: nextTime_def effectiveCycle_def Let_def)
  next
    case False
    with assms(2) have "seconds clock0 = clock0 * 1000000000"
      by (intro seconds_id) simp_all
    with False c show ?thesis by (simp add: nextTime_def effectiveCycle_def Let_def)
  qed
qed

theorem nextTime_deadline_witness:
  "effectiveCycle 0 \<le> 9223372036 \<and> (3600::int) \<le> 9223372036 \<and>
   nextTime ext0 1000 0 3600 = 86400000000000 + 3600000000000 \<and>
   effectiveCycle 60 \<le> 9223372036 \<and> (- 1::int) \<le> 9223372036 \<and>
   nextTime ext0 1000 60 (- 1) = 1000 + 60000000000"
proof -
  have a: "effectiveCycle 0 \<le> 9223372036" "effectiveCycle 60 \<le> 9223372036"
    by (simp_all add: effectiveCycle_def)
  have 1: "nextTime ext0 1000 0 3600 = 86400000000000 + 3600000000000"
    using nextTime_deadline [of 0 3600 ext0 1000] a
    by (simp add: effectiveCycle_def ext0_def utcMidnight_def)
  have 2: "nextTime ext0 1000 60 (- 1) = 1000 + 60000000000"
    using nextTime_deadline [of 60 "- 1" ext0 1000] a
    by (simp add: effectiveCycle_def)
  show ?thesis using a 1 2 by simp
qed

text \<open>
  C2 as stated fails for a cycle of 9223372037 seconds: the product with \<open>time.Second\<close>
  wraps, and the deadline lies before \<open>now\<close>.
\<close>

theorem nextTime_overflow_counterexample:
  "nextTime ext0 0 9223372037 (- 1) = - 9223372036709551616 \<and>
   nextTime ext0 0 9223372037 (- 1) \<noteq> 0 + 9223372037 * 1000000000"
  by (simp add: nextTime_def seconds_def int64_def)

section \<open>Properties of StrToNumSuffix\<close>

lemma digitVal_nonneg: "isDigit c \<Longrightarrow> 0 \<le> digitVal c"
  by (simp add: isDigit_def digitVal_def)

lemma foldl_digits_mono:
  "list_all isDigit ds \<Longrightarrow> 0 \<le> n \<Longrightarrow> n \<le> foldl (\<lambda>n c. n * 10 + digitVal c) n ds"
proof (induction ds arbitrary: n)
  case Nil
  then show ?case by simp
next
  case (Cons c cs)
  then have d: "0 \<le> digitVal c" by (simp add: digitVal_nonneg)
  with Cons.prems have "0 \<le> n * 10 + digitVal c" by simp
  with Cons have "n * 10 + digitVal c \<le> foldl (\<lambda>n c. n * 10 + digitVal c) (n * 10 + digitVal c) cs"
    by simp
  with d Cons.prems show ?case by simp
qed

lemma parseUintLoop_digits:
  "list_all isDigit ds \<Longrightarrow> 0 \<le> n \<Longrightarrow>
   foldl (\<lambda>n c. n * 10 + digitVal c) n ds < 18446744073709551616 \<Longrightarrow>
   parseUintLoop n ds = (foldl (\<lambda>n c. n * 10 + digitVal c) n ds, NoError)"
proof (induction ds arbitrary: n)
  case Nil
  then show ?case by simp
next
  case (Cons c cs)
  then have d: "0 \<le> digitVal c" by (simp add: digitVal_nonneg)
  with Cons.prems have nn: "0 \<le> n * 10 + digitVal c" by simp
  from Cons.prems have "list_all isDigit cs" by simp
  from this nn have "n * 10 + digitVal c \<le> foldl (\<lambda>n c. n * 10 + digitVal c) (n * 10 + digitVal c) cs"
    by (rule foldl_digits_mono)
  with Cons.prems have b: "n * 10 + digitVal c < 18446744073709551616" by simp
  with d have "n < 1844674407370955162" by simp
  with b nn Cons show ?case by simp
qed

lemma decimal_nonneg: "list_all isDigit ds \<Longrightarrow> 0 \<le> decimal ds"
  unfolding decimal_def using foldl_digits_mono [of ds 0] by simp

lemma isDigit_not_sign: "isDigit c \<Longrightarrow> c \<noteq> CHR ''+'' \<and> c \<noteq> CHR ''-''"
  by (auto simp add: isDigit_def)

lemma Atoi_digits:
  assumes "ds \<noteq> []" and "list_all isDigit ds" and "decimal ds < 9223372036854775808"
  shows "Atoi ds = (decimal ds, NoError)"
proof -
  from assms(1,2) have "isDigit (hd ds)" by (cases ds) simp_all
  then have s: "hd ds \<noteq> CHR ''+''" "hd ds \<noteq> CHR ''-''" using isDigit_not_sign by blast+
  from assms(3) have "decimal ds < 18446744073709551616" by simp
  with assms(2) have "parseUintLoop 0 ds = (decimal ds, NoError)"
    unfolding decimal_def by (intro parseUintLoop_digits) simp_all
  with assms s show ?thesis
    by (simp add: Atoi_def ParseInt_def ParseUint_def Let_def)
qed

lemma Trim_id:
  assumes "s \<noteq> []" and "hd s \<notin> set cs0" and "last s \<notin> set cs0"
  shows "Trim s cs0 = s"
proof -
  from assms(1,2) have 1: "dropWhile (\<lambda>c. c \<in> set cs0) s = s"
    by (cases s) simp_all
  from assms(1,3) have "dropWhile (\<lambda>c. c \<in> set cs0) (rev s) = rev s"
    by (cases "rev s") (simp_all add: last_rev [symmetric] del: last_rev)
  with 1 show ?thesis by (simp add: Trim_def)
qed

lemma isDigit_not_space: "isDigit c \<Longrightarrow> c \<notin> set whitespace"
  by (auto simp add: isDigit_def whitespace_def)

lemma isSuffix_not_space: "isSuffix k c \<Longrightarrow> c \<notin> set whitespace"
  by (auto simp add: isSuffix_def whitespace_def split: if_splits)

lemma isDigit_not_suffix:
  "isDigit c \<Longrightarrow> c \<noteq> CHR ''G'' \<and> c \<noteq> CHR ''g'' \<and> c \<noteq> CHR ''M'' \<and> c \<noteq> CHR ''m'' \<and>
     c \<noteq> CHR ''K'' \<and> c \<noteq> CHR ''k''"
  by (auto simp add: isDigit_def)

lemma StrToNumSuffix_plain:
  assumes "ds \<noteq> []" and "list_all isDigit ds" and "decimal ds < 9223372036854775808"
  shows "StrToNumSuffix ds 1024 = decimal ds"
proof -
  from assms(1,2) have "isDigit (last ds)" by (simp add: list_all_iff)
  then have n: "last ds \<noteq> CHR ''G''" "last ds \<noteq> CHR ''g''" "last ds \<noteq> CHR ''M''"
    "last ds \<noteq> CHR ''m''" "last ds \<noteq> CHR ''K''" "last ds \<noteq> CHR ''k''"
    using isDigit_not_suffix by blast+
  have "int64 (decimal ds) = decimal ds"
    using assms(2,3) decimal_nonneg [of ds] by (intro int64_id) simp_all
  with n show ?thesis
    by (simp add: StrToNumSuffix_def Let_def Atoi_digits [OF assms])
qed

lemma StrToNumSuffix_suffix:
  assumes "ds \<noteq> []" and "list_all isDigit ds" and "isSuffix k c"
    and "decimal ds * 1024 ^ k < 9223372036854775808"
  shows "StrToNumSuffix (ds @ [c]) 1024 = decimal ds * 1024 ^ k"
proof -
  have nn: "0 \<le> decimal ds" using assms(2) by (rule decimal_nonneg)
  have "decimal ds * 1 \<le> decimal ds * 1024 ^ k"
    using nn by (intro mult_left_mono) simp_all
  with assms(4) have small: "decimal ds < 9223372036854775808" by simp
  have a: "Atoi ds = (decimal ds, NoError)" using assms(1,2) small by (rule Atoi_digits)
  have "0 \<le> decimal ds * 1024 ^ k" using nn by simp
  then have r: "int64 (decimal ds * 1024 ^ k) = decimal ds * 1024 ^ k"
    using assms(4) by (intro int64_id) simp_all
  from assms(3) consider "k = 1" | "k = 2" | "k = 3"
    by (auto simp add: isSuffix_def split: if_splits)
  then show ?thesis
  proof cases
    case 1
    with assms(3) have "c = CHR ''K'' \<or> c = CHR ''k''" by (simp add: isSuffix_def)
    then show ?thesis using assms(1) a r 1
      by (auto simp add: StrToNumSuffix_def Let_def int64_def)
  next
    case 2
    with assms(3) have "c = CHR ''M'' \<or> c = CHR ''m''" by (simp add: isSuffix_def)
    then show ?thesis using assms(1) a r 2
      by (auto simp add: StrToNumSuffix_def Let_def int64_def)
  next
    case 3
    with assms(3) have "c = CHR ''G'' \<or> c = CHR ''g''" by (simp add: isSuffix_def)
    then show ?thesis using assms(1) a r 3
      by (auto simp add: StrToNumSuffix_def Let_def int64_def)
  qed
qed


lemma maxsize_storeMaxsize: "maxsize (storeMaxsize n fa) = n"
  by (simp add: storeMaxsize_def Let_def)

lemma SetOption_maxsize_string:
  assumes "s \<noteq> []" and "hd s \<notin> set whitespace" and "last s \<notin> set whitespace"
  shows "\<exists>fa'. SetOption ext now ''maxsize'' (VString s) fa = Returned (None, fa') \<and>
           maxsize fa' = StrToNumSuffix s 1024"
  by (simp add: SetOption_maxsize_eq Trim_id [OF assms] maxsize_storeMaxsize)

text \<open>
  C9, as amended. For a non-empty string of decimal digits denoting \<open>d\<close>: with a suffix K/k,
  M/m or G/g and \<open>d\<close> times 1024, 1024 squared or 1024 cubed below \<open>2^63\<close>,
  \<open>StrToNumSuffix(s, 1024)\<close> is that product; without a suffix and \<open>d\<close> below \<open>2^63\<close> it
  is \<open>d\<close>. \<open>SetOption("maxsize", s)\<close> stores this value as \<open>maxsize\<close>.
\<close>

theorem StrToNumSuffix_value:
  assumes "ds \<noteq> []" and "list_all isDigit ds"
  shows "(decimal ds < 9223372036854775808 \<longrightarrow>
            StrToNumSuffix ds 1024 = decimal ds \<and>
            (\<exists>fa'. SetOption ext now ''maxsize'' (VString ds) fa = Returned (None, fa') \<and>
               maxsize fa' = decimal ds)) \<and>
         (isSuffix k c \<and> decimal ds * 1024 ^ k < 9223372036854775808 \<longrightarrow>
            StrToNumSuffix (ds @ [c]) 1024 = decimal ds * 1024 ^ k \<and>
            (\<exists>fa'. SetOption ext now ''maxsize'' (VString (ds @ [c])) fa = Returned (None, fa') \<and>
               maxsize fa' = decimal ds * 1024 ^ k))"
proof (intro conjI impI)
  assume b: "decimal ds < 9223372036854775808"
  with assms show v: "StrToNumSuffix ds 1024 = decimal ds" by (rule StrToNumSuffix_plain)
  from assms have "hd ds \<notin> set whitespace" "last ds \<notin> set whitespace"
    by (simp_all add: list_all_iff isDigit_not_space)
  with assms(1) v show "\<exists>fa'. SetOption ext now ''maxsize'' (VString ds) fa = Returned (None, fa') \<and>
      maxsize fa' = decimal ds"
    using SetOption_maxsize_string [of ds ext now fa] by simp
next
  assume b: "isSuffix k c \<and> decimal ds * 1024 ^ k < 9223372036854775808"
  with assms show v: "StrToNumSuffix (ds @ [c]) 1024 = decimal ds * 1024 ^ k"
    by (intro StrToNumSuffix_suffix) simp_all
  from assms have "hd (ds @ [c]) \<notin> set whitespace"
    by (simp add: list_all_iff isDigit_not_space)
  moreover from b have "isSuffix k c" by simp
  then have "last (ds @ [c]) \<notin> set whitespace"
    by (simp add: isSuffix_not_space)
  ultimately show "\<exists>fa'. SetOption ext now ''maxsize'' (VString (ds @ [c])) fa =
      Returned (None, fa') \<and> maxsize fa' = decimal ds * 1024 ^ k"
    using v SetOption_maxsize_string [of "ds @ [c]" ext now fa] by simp
qed

theorem StrToNumSuffix_value_witness:
  "''10'' \<noteq> [] \<and> list_all isDigit ''10'' \<and> isSuffix 2 CHR ''M'' \<and>
   decimal ''10'' * 1024 ^ 2 < 9223372036854775808 \<and>
   StrToNumSuffix ''10M'' 1024 = 10485760 \<and>
   (\<exists>fa'. SetOption ext0 7 ''maxsize'' (VString ''10M'') fa0 = Returned (None, fa') \<and>
      maxsize fa' = 10485760) \<and>
   decimal ''10'' < 9223372036854775808 \<and> StrToNumSuffix ''10'' 1024 = 10"
proof -
  have d: "list_all isDigit ''10''" by (simp add: isDigit_def)
  have s: "isSuffix 2 CHR ''M''" by (simp add: isSuffix_def)
  have v: "decimal ''10'' = 10" by (simp add: decimal_def digitVal_def)
  have n: "''10'' \<noteq> []" by simp
  from StrToNumSuffix_value [OF n d, where k = 2 and c = "CHR ''M''" and ext = ext0 and now = 7
      and fa = fa0] s v
  have 1: "StrToNumSuffix ''10M'' 1024 = 10485760"
    and 2: "\<exists>fa'. SetOption ext0 7 ''maxsize'' (VString ''10M'') fa0 = Returned (None, fa') \<and>
      maxsize fa' = 10485760"
    and 3: "StrToNumSuffix ''10'' 1024 = 10"
    by simp_all
  show ?thesis using d s v 1 2 3 by simp
qed

text \<open>
  C9 as stated fails where the result does not fit a Go \<open>int\<close>: \<open>2^53\<close> with suffix K wraps
  to \<open>- 2^63\<close>, and twenty nines parse to the largest \<open>int\<close>.
\<close>

theorem StrToNumSuffix_overflow_counterexample:
  "list_all isDigit ''9007199254740992'' \<and>
   StrToNumSuffix ''9007199254740992K'' 1024 = - 9223372036854775808 \<and>
   StrToNumSuffix ''9007199254740992K'' 1024 \<noteq> 9007199254740992 * 1024 \<and>
   list_all isDigit ''99999999999999999999'' \<and>
   StrToNumSuffix ''99999999999999999999'' 1024 = 9223372036854775807"
  by (simp add: StrToNumSuffix_def Atoi_def ParseInt_def ParseUint_def isDigit_def digitVal_def
      int64_def Let_def)

section \<open>Properties of writeLoop and Init\<close>

lemma rotateIfDue_fields [simp]:
  "cycle (rotateIfDue fa) = cycle fa" "clock (rotateIfDue fa) = clock fa"
  "maxsize (rotateIfDue fa) = maxsize fa" "messages (rotateIfDue fa) = messages fa"
  "loopReset (rotateIfDue fa) = loopReset fa" "loopRunning (rotateIfDue fa) = loopRunning fa"
  "layout (rotateIfDue fa) = layout fa"
  by (simp_all add: rotateIfDue_def)

lemma rotateIfDue_calls:
  "calls (out (rotateIfDue fa)) = calls (out fa) @ (if rotationDue fa then [CRotate] else [])"
  by (simp add: rotateIfDue_def rotationDue_def sink_Rotate_def rotateFile_def)

lemma arm_fields:
  "nrt (arm ext t1 t2 fa) = nextTime ext t1 (cycle fa) (clock fa)"
  "rotTimer (arm ext t1 t2 fa) = time_Sub (nextTime ext t1 (cycle fa) (clock fa)) t2"
  by (simp_all add: arm_def Let_def)

text \<open>
  C3. On a timer event the loop sets the deadline to \<open>nextTime\<close> of the current cycle and
  clock, rearms the timer with the time left to it, and calls \<open>Rotate\<close> once if the cycle
  is above 0 and the writer's size exceeds \<open>maxsize\<close>, and makes no call otherwise. On a
  token from \<open>loopReset\<close> it sets the deadline and rearms the timer the same way and leaves
  the writer alone; with no token and the channel open the case cannot be taken.
\<close>

theorem writeLoop_timer_and_reset:
  "(\<exists>fa' loc'. writeLoop_step ext (TimerFired t1 t2) fa loc = Returned (fa', Some loc') \<and>
      nrt loc' = nextTime ext t1 (cycle fa) (clock fa) \<and>
      rotTimer loc' = time_Sub (nextTime ext t1 (cycle fa) (clock fa)) t2 \<and>
      calls (out fa') = calls (out fa) @ (if rotationDue fa then [CRotate] else [])) \<and>
   (resetReady fa \<longrightarrow>
      (\<exists>fa' loc'. writeLoop_step ext (RecvReset t1 t2) fa loc = Returned (fa', Some loc') \<and>
         nrt loc' = nextTime ext t1 (cycle fa) (clock fa) \<and>
         rotTimer loc' = time_Sub (nextTime ext t1 (cycle fa) (clock fa)) t2 \<and>
         out fa' = out fa \<and> buf (loopReset fa') = tl (buf (loopReset fa)))) \<and>
   (\<not> resetReady fa \<longrightarrow> writeLoop_step ext (RecvReset t1 t2) fa loc = Blocked)"
proof (intro conjI impI)
  show "\<exists>fa' loc'. writeLoop_step ext (TimerFired t1 t2) fa loc = Returned (fa', Some loc') \<and>
      nrt loc' = nextTime ext t1 (cycle fa) (clock fa) \<and>
      rotTimer loc' = time_Sub (nextTime ext t1 (cycle fa) (clock fa)) t2 \<and>
      calls (out fa') = calls (out fa) @ (if rotationDue fa then [CRotate] else [])"
    by (simp add: writeLoop_step_def arm_fields rotateIfDue_calls)
next
  assume "resetReady fa"
  then show "\<exists>fa' loc'. writeLoop_step ext (RecvReset t1 t2) fa loc = Returned (fa', Some loc') \<and>
         nrt loc' = nextTime ext t1 (cycle fa) (clock fa) \<and>
         rotTimer loc' = time_Sub (nextTime ext t1 (cycle fa) (clock fa)) t2 \<and>
         out fa' = out fa \<and> buf (loopReset fa') = tl (buf (loopReset fa))"
    by (cases "buf (loopReset fa)")
       (simp_all add: writeLoop_step_def resetReady_def recv_def arm_fields)
next
  assume "\<not> resetReady fa"
  then show "writeLoop_step ext (RecvReset t1 t2) fa loc = Blocked"
    by (simp add: writeLoop_step_def resetReady_def recv_def)
qed


theorem writeLoop_timer_and_reset_witness:
  "rotationDue (fa0\<lparr>out := sink_Write ''hello'' (out fa0)\<rparr>) \<and>
   (\<exists>fa' loc'. writeLoop_step ext0 (TimerFired 1000 1001)
        (fa0\<lparr>out := sink_Write ''hello'' (out fa0)\<rparr>) \<lparr>nrt = 0, rotTimer = 0\<rparr> =
          Returned (fa', Some loc') \<and>
      nrt loc' = 86400000001000 \<and> rotTimer loc' = 86399999999999 \<and>
      calls (out fa') = [CSetMaxBackup 3, CWrite ''hello'', CRotate]) \<and>
   resetReady (fa0\<lparr>loopReset := \<lparr>buf = [5], closed = False\<rparr>\<rparr>) \<and>
   (\<exists>fa' loc'. writeLoop_step ext0 (RecvReset 1000 1001)
        (fa0\<lparr>loopReset := \<lparr>buf = [5], closed = False\<rparr>\<rparr>) \<lparr>nrt = 0, rotTimer = 0\<rparr> =
          Returned (fa', Some loc') \<and>
      nrt loc' = 86400000001000 \<and> out fa' = out fa0 \<and> buf (loopReset fa') = []) \<and>
   \<not> resetReady fa0 \<and>
   writeLoop_step ext0 (RecvReset 1000 1001) fa0 \<lparr>nrt = 0, rotTimer = 0\<rparr> = Blocked"
proof -
  have d: "rotationDue (fa0\<lparr>out := sink_Write ''hello'' (out fa0)\<rparr>)"
    by (simp add: rotationDue_def fa0_def NewAppender_def sink_Size_def sink_Write_def
        SetMaxBackup_def NewRotateFileWriter_def)
  have c: "calls (out (fa0\<lparr>out := sink_Write ''hello'' (out fa0)\<rparr>)) =
      [CSetMaxBackup 3, CWrite ''hello'']"
    by (simp add: fa0_def NewAppender_def sink_Write_def SetMaxBackup_def
        NewRotateFileWriter_def)
  have r: "resetReady (fa0\<lparr>loopReset := \<lparr>buf = [5], closed = False\<rparr>\<rparr>)"
    by (simp add: resetReady_def)
  have n: "\<not> resetReady fa0"
    by (simp add: resetReady_def fa0_def NewAppender_def)
  have t: "nextTime ext0 1000 86400 (- 1) = 86400000001000"
    by (simp add: nextTime_def seconds_def int64_def)
  have s: "time_Sub 86400000001000 1001 = 86399999999999"
    by (simp add: time_Sub_def)
  have f: "cycle fa0 = 86400" "clock fa0 = - 1"
    by (simp_all add: fa0_def NewAppender_def)
  from writeLoop_timer_and_reset [of ext0 1000 1001
      "fa0\<lparr>out := sink_Write ''hello'' (out fa0)\<rparr>" "\<lparr>nrt = 0, rotTimer = 0\<rparr>"] d c t s f
  have 1: "\<exists>fa' loc'. writeLoop_step ext0 (TimerFired 1000 1001)
        (fa0\<lparr>out := sink_Write ''hello'' (out fa0)\<rparr>) \<lparr>nrt = 0, rotTimer = 0\<rparr> =
          Returned (fa', Some loc') \<and>
      nrt loc' = 86400000001000 \<and> rotTimer loc' = 86399999999999 \<and>
      calls (out fa') = [CSetMaxBackup 3, CWrite ''hello'', CRotate]"
    by simp
  from writeLoop_timer_and_reset [of ext0 1000 1001
      "fa0\<lparr>loopReset := \<lparr>buf = [5], closed = False\<rparr>\<rparr>" "\<lparr>nrt = 0, rotTimer = 0\<rparr>"] r t f
  have 2: "\<exists>fa' loc'. writeLoop_step ext0 (RecvReset 1000 1001)
        (fa0\<lparr>loopReset := \<lparr>buf = [5], closed = False\<rparr>\<rparr>) \<lparr>nrt = 0, rotTimer = 0\<rparr> =
          Returned (fa', Some loc') \<and>
      nrt loc' = 86400000001000 \<and> out fa' = out fa0 \<and> buf (loopReset fa') = []"
    by auto
  from writeLoop_timer_and_reset [of ext0 1000 1001 fa0 "\<lparr>nrt = 0, rotTimer = 0\<rparr>"] n
  have 3: "writeLoop_step ext0 (RecvReset 1000 1001) fa0 \<lparr>nrt = 0, rotTimer = 0\<rparr> = Blocked"
    by simp
  show ?thesis by (intro conjI d 1 r 2 n 3)
qed

text \<open>
  C8. A call of \<open>Init\<close> with \<open>loopRunning\<close> false sets it, starts one loop, and returns with
  the loop past its first rotation test (one \<open>Rotate\<close> call if due, none otherwise) and its
  timer armed for the first deadline. A call with \<open>loopRunning\<close> true changes nothing and
  starts nothing, so a second \<open>Init\<close> after the first is without effect.
\<close>

theorem Init_idempotent:
  "(\<not> loopRunning (app w) \<longrightarrow>
      loopRunning (app (Init ext t1 t2 w)) \<and>
      spawned (Init ext t1 t2 w) = Suc (spawned w) \<and>
      task (Init ext t1 t2 w) =
        Some \<lparr>nrt = nextTime ext t1 (cycle (app w)) (clock (app w)),
              rotTimer = time_Sub (nextTime ext t1 (cycle (app w)) (clock (app w))) t2\<rparr> \<and>
      calls (out (app (Init ext t1 t2 w))) =
        calls (out (app w)) @ (if rotationDue (app w) then [CRotate] else [])) \<and>
   (loopRunning (app w) \<longrightarrow> Init ext t1 t2 w = w) \<and>
   Init ext t3 t4 (Init ext t1 t2 w) = Init ext t1 t2 w"
proof -
  have r: "\<not> loopRunning (app w) \<Longrightarrow> loopRunning (app (Init ext t1 t2 w))"
    by (simp add: Init_def writeLoop_start_def Let_def)
  have k: "loopRunning (app w) \<Longrightarrow> Init ext t1 t2 w = w"
    by (simp add: Init_def)
  have d: "rotationDue ((app w)\<lparr>loopRunning := True\<rparr>) = rotationDue (app w)"
    by (simp add: rotationDue_def)
  have i: "Init ext t3 t4 (Init ext t1 t2 w) = Init ext t1 t2 w"
  proof (cases "loopRunning (app w)")
    case True
    then show ?thesis by (simp add: Init_def)
  next
    case False
    then have "loopRunning (app (Init ext t1 t2 w))" by (rule r)
    then show ?thesis by (simp add: Init_def [of ext t3 t4])
  qed
  show ?thesis
  proof (intro conjI impI)
    assume n: "\<not> loopRunning (app w)"
    then show "loopRunning (app (Init ext t1 t2 w))" by (rule r)
    from n show "spawned (Init ext t1 t2 w) = Suc (spawned w)"
      by (simp add: Init_def Let_def)
    from n show "task (Init ext t1 t2 w) =
        Some \<lparr>nrt = nextTime ext t1 (cycle (app w)) (clock (app w)),
              rotTimer = time_Sub (nextTime ext t1 (cycle (app w)) (clock (app w))) t2\<rparr>"
      by (simp add: Init_def writeLoop_start_def arm_def Let_def)
    from n show "calls (out (app (Init ext t1 t2 w))) =
        calls (out (app w)) @ (if rotationDue (app w) then [CRotate] else [])"
      by (simp add: Init_def writeLoop_start_def Let_def rotateIfDue_calls d)
  next
    assume "loopRunning (app w)"
    then show "Init ext t1 t2 w = w" by (rule k)
  next
    show "Init ext t3 t4 (Init ext t1 t2 w) = Init ext t1 t2 w" by (rule i)
  qed
qed

lemma w0_eq:
  "w0 = \<lparr>app = fa0\<lparr>loopRunning := True\<rparr>,
         task = Some \<lparr>nrt = 86400000001000, rotTimer = 86399999999999\<rparr>, spawned = 1\<rparr>"
  by (simp add: w0_def Init_def writeLoop_start_def arm_def rotateIfDue_def Let_def fa0_def
      NewAppender_def sink_Size_def SetMaxBackup_def NewRotateFileWriter_def nextTime_def
      seconds_def int64_def time_Sub_def)

theorem Init_idempotent_witness:
  "\<not> loopRunning (app \<lparr>app = fa0, task = None, spawned = 0\<rparr>) \<and>
   loopRunning (app w0) \<and> spawned w0 = 1 \<and>
   task w0 = Some \<lparr>nrt = 86400000001000, rotTimer = 86399999999999\<rparr> \<and>
   Init ext0 2000 2001 w0 = w0 \<and> spawned (Init ext0 2000 2001 w0) = 1"
proof -
  have n: "\<not> loopRunning (app \<lparr>app = fa0, task = None, spawned = 0\<rparr>)"
    by (simp add: fa0_def NewAppender_def)
  have f: "cycle fa0 = 86400" "clock fa0 = - 1"
    by (simp_all add: fa0_def NewAppender_def)
  have t: "nextTime ext0 1000 86400 (- 1) = 86400000001000"
    by (simp add: nextTime_def seconds_def int64_def)
  have s: "time_Sub 86400000001000 1001 = 86399999999999"
    by (simp add: time_Sub_def)
  from Init_idempotent [of "\<lparr>app = fa0, task = None, spawned = 0\<rparr>" ext0 1000 1001 2000 2001]
    n f t s
  have 1: "loopRunning (app w0)" and 2: "spawned w0 = 1"
    and 3: "task w0 = Some \<lparr>nrt = 86400000001000, rotTimer = 86399999999999\<rparr>"
    and 4: "Init ext0 2000 2001 w0 = w0"
    by (simp_all add: w0_def)
  from 4 2 have 5: "spawned (Init ext0 2000 2001 w0) = 1" by simp
  show ?thesis by (intro conjI n 1 2 3 4 5)
qed

section \<open>Order of the writes\<close>

lemma written_append: "written (xs @ ys) = written xs @ written ys"
  by (induction xs rule: written.induct) simp_all

lemma calls_Write: "calls (sink_Write bb s) = calls s @ [CWrite bb]"
  by (simp add: sink_Write_def rotateFile_def Let_def)

lemma calls_Flush: "calls (sink_Flush s) = calls s @ [CFlush]"
  by (simp add: sink_Flush_def)

lemma wr_Write: "written (calls (sink_Write bb s)) = written (calls s) @ [bb]"
  by (simp add: calls_Write written_append)

lemma wr_Flush: "written (calls (sink_Flush s)) = written (calls s)"
  by (simp add: sink_Flush_def written_append)

lemma wr_Rotate: "written (calls (sink_Rotate s)) = written (calls s)"
  by (simp add: sink_Rotate_def rotateFile_def written_append)

lemma wr_drain: "written (calls (drain bs s)) = written (calls s) @ bs"
  by (induction bs arbitrary: s) (simp_all add: wr_Write)

lemma wr_rotateIfDue: "wr (rotateIfDue fa) = wr fa"
  by (simp add: wr_def rotateIfDue_def wr_Rotate)

lemma step_message:
  assumes "buf (messages fa) = x # xs"
  shows "\<exists>fa'. writeLoop_step ext RecvMessages fa loc = Returned (fa', Some loc) \<and>
           wr fa' = wr fa @ [x] \<and> messages fa' = (messages fa)\<lparr>buf := xs\<rparr> \<and>
           calls (out fa') = calls (out fa) @ CWrite x # (if xs = [] then [CFlush] else [])"
  using assms
  by (simp add: writeLoop_step_def recv_def Let_def wr_def calls_Write calls_Flush
      written_append)

lemma step_closed:
  assumes "buf (messages fa) = []" and "closed (messages fa)"
  shows "\<exists>fa'. writeLoop_step ext RecvMessages fa loc = Returned (fa', None) \<and>
           wr fa' = wr fa @ [[]] \<and> messages fa' = messages fa \<and> \<not> loopRunning fa' \<and>
           calls (out fa') = calls (out fa) @ [CWrite [], CFlush]"
  using assms
  by (simp add: writeLoop_step_def recv_def Let_def wr_def calls_Write calls_Flush
      written_append)

lemma step_open_empty:
  assumes "buf (messages fa) = []" and "\<not> closed (messages fa)"
  shows "writeLoop_step ext RecvMessages fa loc = Blocked"
  using assms by (simp add: writeLoop_step_def recv_def)

lemma step_timer:
  "\<exists>fa' loc'. writeLoop_step ext (TimerFired t1 t2) fa loc = Returned (fa', Some loc') \<and>
     wr fa' = wr fa \<and> messages fa' = messages fa"
  by (simp add: writeLoop_step_def wr_rotateIfDue)

lemma step_reset:
  "writeLoop_step ext (RecvReset t1 t2) fa loc = Returned r \<Longrightarrow>
   snd r \<noteq> None \<and> wr (fst r) = wr fa \<and> messages (fst r) = messages fa"
  by (auto simp add: writeLoop_step_def recv_def wr_def split: list.splits if_splits)


lemma wr_setters [simp]:
  "written (calls (SetFileName f s)) = written (calls s)"
  "written (calls (SetFlush n s)) = written (calls s)"
  "written (calls (SetMaxBackup n s)) = written (calls s)"
  "written (calls (SetMaxSize n s)) = written (calls s)"
  "written (calls (SetHead h s)) = written (calls s)"
  "written (calls (SetFoot h s)) = written (calls s)"
  by (simp_all add: SetFileName_def SetFlush_def SetMaxBackup_def SetMaxSize_def SetHead_def
      SetFoot_def written_append)

lemma postReset_obs:
  "postReset ext now fa = Returned fa' \<Longrightarrow> out fa' = out fa \<and> messages fa' = messages fa"
  by (auto simp add: postReset_def send_def split: if_splits)

lemma finish_obs:
  assumes "finish (postReset ext now fa) = Returned r"
  shows "out (snd r) = out fa \<and> messages (snd r) = messages fa"
proof (cases "postReset ext now fa")
  case (Returned fa')
  with assms have "r = (None, fa')" by (simp add: finish_def)
  with postReset_obs [OF Returned] show ?thesis by simp
next
  case Blocked
  with assms show ?thesis by (simp add: finish_def)
next
  case Panicked
  with assms show ?thesis by (simp add: finish_def)
qed

lemma storeCycle_obs:
  "storeCycle ext now n fa = Returned r \<Longrightarrow> wr (snd r) = wr fa \<and> messages (snd r) = messages fa"
  unfolding storeCycle_def by (drule finish_obs) (simp add: wr_def setThreshold_def)

lemma storeClock_obs:
  "storeClock ext now n fa = Returned r \<Longrightarrow> wr (snd r) = wr fa \<and> messages (snd r) = messages fa"
  unfolding storeClock_def by (drule finish_obs) (simp add: wr_def)

lemma storeDaily_obs:
  "storeDaily ext now b fa = Returned r \<Longrightarrow> wr (snd r) = wr fa \<and> messages (snd r) = messages fa"
proof (cases b)
  case True
  assume "storeDaily ext now b fa = Returned r"
  with True have "finish (postReset ext now
      (fa\<lparr>cycle := 86400, clock := 0, maxsize := 0, out := SetMaxSize 0 (out fa)\<rparr>)) = Returned r"
    by (simp add: storeDaily_def)
  from finish_obs [OF this] show ?thesis by (simp add: wr_def)
next
  case False
  assume "storeDaily ext now b fa = Returned r"
  with False show ?thesis by (auto simp add: storeDaily_def)
qed

lemma storeMaxsize_obs:
  "wr (storeMaxsize n fa) = wr fa \<and> messages (storeMaxsize n fa) = messages fa"
  by (simp add: storeMaxsize_def Let_def wr_def)

lemma SetOption_obs:
  assumes "SetOption ext now name v fa = Returned r"
  shows "wr (snd r) = wr fa \<and> messages (snd r) = messages fa"
proof (cases "ownOption name")
  case True
  then show ?thesis
  proof (cases rule: ownOptions_cases)
    case 1 with assms show ?thesis
      by (cases v) (auto simp add: SetOption_filename_eq wr_def split: if_splits option.splits)
  next
    case 2 with assms show ?thesis
      by (cases v) (auto simp add: SetOption_flush_eq wr_def)
  next
    case 3 with assms show ?thesis
      by (cases v) (auto simp add: SetOption_maxbackup_eq wr_def)
  next
    case 4 with assms show ?thesis
      by (cases v) (auto simp add: SetOption_maxsize_eq storeMaxsize_obs)
  next
    case 5 with assms show ?thesis
      by (cases v) (auto simp add: SetOption_head_eq wr_def)
  next
    case 6 with assms show ?thesis
      by (cases v) (auto simp add: SetOption_foot_eq wr_def)
  next
    case 7 with assms show ?thesis
      by (cases v) (auto simp add: SetOption_cycle_eq dest: storeCycle_obs)
  next
    case 8 with assms show ?thesis
      by (cases v) (auto simp add: SetOption_clock_eq dest: storeClock_obs)
  next
    case 9 with assms show ?thesis
      by (cases v) (auto simp add: SetOption_daily_eq dest: storeDaily_obs)
  qed
next
  case False
  show ?thesis
  proof (cases "layoutOption name")
    case True
    with assms show ?thesis by (auto simp add: SetOption_layout_eq wr_def)
  next
    case l: False
    with False assms show ?thesis by (auto simp add: SetOption_other_eq)
  qed
qed


lemma lift_Some: "lift w a = Some w' \<Longrightarrow> \<exists>fa. a = Returned fa \<and> w' = w\<lparr>app := fa\<rparr>"
  by (cases a) (simp_all add: lift_def)

lemma Write_Returned:
  "Write ext bb fa = Returned fa' \<Longrightarrow>
   \<not> closed (messages fa) \<and> out fa' = out fa \<and>
   messages fa' = (messages fa)\<lparr>buf := buf (messages fa) @ [bb]\<rparr>"
  by (auto simp add: Write_def send_def split: if_splits)

lemma Close_messages_Returned:
  "Close_messages fa = Returned fa' \<Longrightarrow>
   \<not> closed (messages fa) \<and> out fa' = out fa \<and> messages fa' = (messages fa)\<lparr>closed := True\<rparr>"
  by (auto simp add: Close_messages_def close_chan_def split: if_splits)

lemma Close_loopReset_Returned:
  "Close_loopReset fa = Returned fa' \<Longrightarrow> out fa' = out fa \<and> messages fa' = messages fa"
  by (auto simp add: Close_loopReset_def close_chan_def split: if_splits)

lemma exec_select:
  assumes "exec ext (ASelect sc) w = Some w'" and "traceOk W w"
  shows "traceOk W w'"
proof (cases "task w")
  case None
  with assms(1) show ?thesis by (simp add: exec_def)
next
  case (Some loc)
  with assms(2) have W: "wr (app w) @ queued (app w) = W" by (simp add: traceOk_def)
  show ?thesis
  proof (cases sc)
    case RecvMessages
    show ?thesis
    proof (cases "buf (messages (app w))")
      case Nil
      show ?thesis
      proof (cases "closed (messages (app w))")
        case True
        from step_closed [OF Nil True, of ext loc] obtain fa' where
          s: "writeLoop_step ext RecvMessages (app w) loc = Returned (fa', None)"
          and o: "wr fa' = wr (app w) @ [[]]" "messages fa' = messages (app w)" by blast
        from s Some RecvMessages assms(1) have "w' = w\<lparr>app := fa', task := None\<rparr>"
          by (simp add: exec_def)
        with o W Nil True show ?thesis by (simp add: traceOk_def queued_def)
      next
        case False
        from step_open_empty [OF Nil False, of ext loc] Some RecvMessages assms(1)
        show ?thesis by (simp add: exec_def)
      qed
    next
      case (Cons x xs)
      from step_message [OF Cons, of ext loc] obtain fa' where
        s: "writeLoop_step ext RecvMessages (app w) loc = Returned (fa', Some loc)"
        and o: "wr fa' = wr (app w) @ [x]" "messages fa' = (messages (app w))\<lparr>buf := xs\<rparr>"
        by blast
      from s Some RecvMessages assms(1) have "w' = w\<lparr>app := fa', task := Some loc\<rparr>"
        by (simp add: exec_def)
      with o W Cons show ?thesis by (simp add: traceOk_def queued_def)
    qed
  next
    case (TimerFired t1 t2)
    from step_timer [of ext t1 t2 "app w" loc] obtain fa' loc' where
      s: "writeLoop_step ext (TimerFired t1 t2) (app w) loc = Returned (fa', Some loc')"
      and o: "wr fa' = wr (app w)" "messages fa' = messages (app w)" by blast
    from s Some TimerFired assms(1) have "w' = w\<lparr>app := fa', task := Some loc'\<rparr>"
      by (simp add: exec_def)
    with o W show ?thesis by (simp add: traceOk_def queued_def)
  next
    case (RecvReset t1 t2)
    with Some assms(1) obtain r where
      s: "writeLoop_step ext (RecvReset t1 t2) (app w) loc = Returned r"
      and w': "w' = w\<lparr>app := fst r, task := snd r\<rparr>"
      by (auto simp add: exec_def split: attempt.splits)
    from step_reset [OF s] w' W show ?thesis
      by (auto simp add: traceOk_def queued_def)
  qed
qed

lemma exec_trace:
  assumes "exec ext a w = Some w'" and "traceOk W w"
  shows "traceOk (W @ produced [a]) w'"
proof (cases a)
  case (AWrite bb)
  with assms(1) have "lift w (Write ext bb (app w)) = Some w'" by (simp add: exec_def)
  from lift_Some [OF this] obtain fa where
    r: "Write ext bb (app w) = Returned fa" and w': "w' = w\<lparr>app := fa\<rparr>" by blast
  from Write_Returned [OF r] w' assms(2) AWrite show ?thesis
    by (auto simp add: traceOk_def queued_def wr_def split: option.splits)
next
  case ACloseMessages
  with assms(1) have "lift w (Close_messages (app w)) = Some w'" by (simp add: exec_def)
  from lift_Some [OF this] obtain fa where
    r: "Close_messages (app w) = Returned fa" and w': "w' = w\<lparr>app := fa\<rparr>" by blast
  from Close_messages_Returned [OF r] w' assms(2) ACloseMessages show ?thesis
    by (auto simp add: traceOk_def queued_def wr_def split: option.splits)
next
  case ACloseReset
  with assms(1) have "lift w (Close_loopReset (app w)) = Some w'" by (simp add: exec_def)
  from lift_Some [OF this] obtain fa where
    r: "Close_loopReset (app w) = Returned fa" and w': "w' = w\<lparr>app := fa\<rparr>" by blast
  from Close_loopReset_Returned [OF r] w' assms(2) ACloseReset show ?thesis
    by (auto simp add: traceOk_def queued_def wr_def split: option.splits)
next
  case (ASelect sc)
  with assms exec_select [of ext sc w w' W] show ?thesis by simp
next
  case (ASetOption now name v)
  with assms(1) obtain r where
    s: "SetOption ext now name v (app w) = Returned r" and w': "w' = w\<lparr>app := snd r\<rparr>"
    by (auto simp add: exec_def split: attempt.splits)
  from SetOption_obs [OF s] w' assms(2) ASetOption show ?thesis
    by (auto simp add: traceOk_def queued_def split: option.splits)
qed

lemma produced_Cons: "produced (a # as) = produced [a] @ produced as"
  by (cases a) simp_all

lemma run_trace:
  "run ext acts w = Some w' \<Longrightarrow> traceOk W w \<Longrightarrow> traceOk (W @ produced acts) w'"
proof (induction acts arbitrary: w W)
  case Nil
  then show ?case by simp
next
  case (Cons a as)
  from Cons.prems(1) obtain w1 where
    e: "exec ext a w = Some w1" and r: "run ext as w1 = Some w'"
    by (auto split: option.splits)
  from exec_trace [OF e Cons.prems(2)] have "traceOk (W @ produced [a]) w1" .
  from Cons.IH [OF r this] show ?case by (simp add: produced_Cons [of a as])
qed




lemma run_shut: "run ext0 [ACloseMessages, ASelect RecvMessages] w0 = Some wShut"
  by code_simp

lemma w0_alive: "task w0 \<noteq> None"
  by (simp add: w0_eq)

lemma traceOk_start: "task w \<noteq> None \<Longrightarrow> traceOk (wr (app w) @ queued (app w)) w"
  by (auto simp add: traceOk_def)



text \<open>
  C10. With the queue empty and closed, the message case writes the empty zero value, flushes,
  and returns from the loop with \<open>loopRunning\<close> cleared, the drain adding nothing. So a loop
  that has returned has made exactly one \<open>Write\<close> more than there were messages, the last
  one, with an empty payload.
\<close>

theorem writeLoop_shutdown_write:
  "(queued fa = [] \<and> closed (messages fa) \<longrightarrow>
      (\<exists>fa'. writeLoop_step ext RecvMessages fa loc = Returned (fa', None) \<and>
         calls (out fa') = calls (out fa) @ [CWrite [], CFlush] \<and> \<not> loopRunning fa')) \<and>
   (run ext acts w = Some w' \<and> task w \<noteq> None \<and> task w' = None \<longrightarrow>
      length (wr (app w')) =
        Suc (length (wr (app w)) + length (queued (app w)) + length (produced acts)) \<and>
      last (wr (app w')) = [] \<and>
      butlast (wr (app w')) = wr (app w) @ queued (app w) @ produced acts)"
proof (intro conjI impI)
  assume "queued fa = [] \<and> closed (messages fa)"
  then have "buf (messages fa) = []" "closed (messages fa)" by (simp_all add: queued_def)
  from step_closed [OF this, of ext loc]
  show "\<exists>fa'. writeLoop_step ext RecvMessages fa loc = Returned (fa', None) \<and>
         calls (out fa') = calls (out fa) @ [CWrite [], CFlush] \<and> \<not> loopRunning fa'"
    by blast
next
  assume a: "run ext acts w = Some w' \<and> task w \<noteq> None \<and> task w' = None"
  then have r: "run ext acts w = Some w'" and s: "task w \<noteq> None" and n: "task w' = None"
    by simp_all
  from run_trace [OF r traceOk_start [OF s]] n
  have e: "wr (app w') = (wr (app w) @ queued (app w) @ produced acts) @ [[]]"
    by (simp add: traceOk_def)
  show "length (wr (app w')) =
      Suc (length (wr (app w)) + length (queued (app w)) + length (produced acts))"
    by (simp add: e)
  show "last (wr (app w')) = []" by (simp add: e)
  show "butlast (wr (app w')) = wr (app w) @ queued (app w) @ produced acts"
    unfolding e by (rule butlast_snoc)
qed




theorem writeLoop_shutdown_write_witness:
  "queued (app wMid\<lparr>messages := \<lparr>buf = [], closed = True\<rparr>\<rparr>) = [] \<and>
   closed (messages (app wMid\<lparr>messages := \<lparr>buf = [], closed = True\<rparr>\<rparr>)) \<and>
   (\<exists>fa'. writeLoop_step ext0 RecvMessages (app wMid\<lparr>messages := \<lparr>buf = [], closed = True\<rparr>\<rparr>)
             \<lparr>nrt = 0, rotTimer = 0\<rparr> = Returned (fa', None) \<and>
      calls (out fa') = [CSetMaxBackup 3, CWrite ''a'', CSetMaxSize 0, CWrite [], CFlush] \<and>
      \<not> loopRunning fa') \<and>
   run ext0 [ACloseMessages, ASelect RecvMessages] w0 = Some wShut \<and> task w0 \<noteq> None \<and>
   task wShut = None \<and> length (wr (app wShut)) = 1 \<and> last (wr (app wShut)) = []"
proof -
  let ?fa = "app wMid\<lparr>messages := \<lparr>buf = [], closed = True\<rparr>\<rparr>"
  have q: "queued ?fa = []" "closed (messages ?fa)" by (simp_all add: queued_def)
  have c: "calls (out ?fa) = [CSetMaxBackup 3, CWrite ''a'', CSetMaxSize 0]"
    by (simp add: wMid_def)
  have s: "wr (app w0) = []" "queued (app w0) = []"
    by (simp_all add: w0_eq wr_def queued_def fa0_def NewAppender_def
        SetMaxBackup_def NewRotateFileWriter_def)
  have e: "task wShut = None" by (simp add: wShut_def)
  from writeLoop_shutdown_write [of ?fa ext0 "\<lparr>nrt = 0, rotTimer = 0\<rparr>"] q c
  have 1: "\<exists>fa'. writeLoop_step ext0 RecvMessages ?fa \<lparr>nrt = 0, rotTimer = 0\<rparr> =
        Returned (fa', None) \<and>
      calls (out fa') = [CSetMaxBackup 3, CWrite ''a'', CSetMaxSize 0, CWrite [], CFlush] \<and>
      \<not> loopRunning fa'"
    by simp
  from writeLoop_shutdown_write [where ext = ext0 and acts = "[ACloseMessages, ASelect RecvMessages]"
      and w = w0 and w' = wShut] run_shut w0_alive e s
  have 2: "length (wr (app wShut)) = 1" "last (wr (app wShut)) = []"
    by simp_all
  show ?thesis by (intro conjI q 1 run_shut w0_alive e 2)
qed

end
